theory Spec2Isabelle
  imports Complex_Main
begin

section \<open>Doubles\<close>

text \<open>
  The extension computes on C \<^verbatim>\<open>double\<close>s, taken here as IEEE 754 binary64 in the default
  rounding mode (to nearest, ties to even), each operation rounded on its own (no fused
  multiply-add, no extended precision). A double is a finite number, negative zero, an
  infinity or a NaN: \<open>Finite 0\<close> is \<open>+0.0\<close>, \<open>NegZero\<close> is \<open>-0.0\<close>, and \<open>Finite x\<close> is meant for
  the reals \<open>x\<close> that binary64 holds exactly (\<open>is_binary64 x\<close>). NaN payloads are not told
  apart.
\<close>

datatype double = Finite real | NegZero | PInf | NInf | NaN

text \<open>The finite binary64 numbers: \<open>m 2\<^sup>e\<close> with \<open>|m| < 2\<^sup>5\<^sup>3\<close> and \<open>-1074 \<le> e \<le> 971\<close>.\<close>

definition is_binary64 :: "real \<Rightarrow> bool" where
  "is_binary64 x \<longleftrightarrow>
     (\<exists>m e :: int. x = of_int m * 2 powr of_int e \<and> \<bar>m\<bar> < 2 ^ 53 \<and> - 1074 \<le> e \<and> e \<le> 971)"

text \<open>Rounding a real to the nearest integer, ties to the even one.\<close>

definition round_half_even :: "real \<Rightarrow> int" where
  "round_half_even r =
     (let f = \<lfloor>r\<rfloor>; d = r - of_int f
      in if d < 1 / 2 then f else if 1 / 2 < d then f + 1 else if even f then f else f + 1)"

text \<open>
  Rounding a nonzero real whose binade is \<open>e\<close> (\<open>2\<^sup>e \<le> |x| < 2\<^sup>e\<^sup>+\<^sup>1\<close>, or \<open>e = -1022\<close> for a
  subnormal): the result is a multiple of the unit in the last place \<open>2\<^sup>e\<^sup>-\<^sup>5\<^sup>2\<close>, overflows to
  an infinity from \<open>2\<^sup>1\<^sup>0\<^sup>2\<^sup>4\<close> on and underflows to a zero of the sign of \<open>x\<close>.
\<close>

definition round_at :: "int \<Rightarrow> real \<Rightarrow> double" where
  "round_at e x =
     (let ulp = 2 powr of_int (e - 52);
          n = round_half_even (\<bar>x\<bar> / ulp);
          y = of_int n * ulp
      in if 2 ^ 1024 \<le> y then (if x < 0 then NInf else PInf)
         else if n = 0 then (if x < 0 then NegZero else Finite 0)
         else Finite (if x < 0 then - y else y))"

definition round64 :: "real \<Rightarrow> double" where
  "round64 x = (if x = 0 then Finite 0 else round_at (max \<lfloor>log 2 \<bar>x\<bar>\<rfloor> (- 1022)) x)"

fun is_finite :: "double \<Rightarrow> bool" where
  "is_finite (Finite x) = True"
| "is_finite NegZero = True"
| "is_finite _ = False"

fun is_inf :: "double \<Rightarrow> bool" where
  "is_inf PInf = True"
| "is_inf NInf = True"
| "is_inf _ = False"

fun is_zero :: "double \<Rightarrow> bool" where
  "is_zero (Finite x) = (x = 0)"
| "is_zero NegZero = True"
| "is_zero _ = False"

fun sign_bit :: "double \<Rightarrow> bool" where
  "sign_bit (Finite x) = (x < 0)"
| "sign_bit NegZero = True"
| "sign_bit NInf = True"
| "sign_bit _ = False"

text \<open>The number a finite double stands for (both zeros stand for 0).\<close>

fun val :: "double \<Rightarrow> real" where
  "val (Finite x) = x"
| "val _ = 0"

definition signed_zero :: "bool \<Rightarrow> double" where
  "signed_zero negative = (if negative then NegZero else Finite 0)"

definition signed_inf :: "bool \<Rightarrow> double" where
  "signed_inf negative = (if negative then NInf else PInf)"

fun dneg :: "double \<Rightarrow> double" where
  "dneg (Finite x) = (if x = 0 then NegZero else Finite (- x))"
| "dneg NegZero = Finite 0"
| "dneg PInf = NInf"
| "dneg NInf = PInf"
| "dneg NaN = NaN"

text \<open>
  The four operations of IEEE 754. A sum that is exactly zero is \<open>+0.0\<close> unless both terms
  are \<open>-0.0\<close>; \<open>x - y\<close> is \<open>x + (-y)\<close>; the sign of a product or quotient is the exclusive
  or of the signs; \<open>\<infinity> - \<infinity>\<close>, \<open>0 \<times> \<infinity>\<close>, \<open>0 / 0\<close> and \<open>\<infinity> / \<infinity>\<close> are NaN; a finite
  number over an infinity is a zero, and a nonzero number over a zero is an infinity.
\<close>

instantiation double :: "{plus, minus, times, inverse}"
begin

definition plus_double :: "double \<Rightarrow> double \<Rightarrow> double" where
  "plus_double x y =
     (if x = NaN \<or> y = NaN then NaN
      else if is_inf x \<and> is_inf y then (if x = y then x else NaN)
      else if is_inf x then x
      else if is_inf y then y
      else if x = NegZero \<and> y = NegZero then NegZero
      else round64 (val x + val y))"

definition minus_double :: "double \<Rightarrow> double \<Rightarrow> double" where
  "minus_double x y = x + dneg y"

definition times_double :: "double \<Rightarrow> double \<Rightarrow> double" where
  "times_double x y =
     (if x = NaN \<or> y = NaN then NaN
      else if is_inf x \<and> is_zero y \<or> is_zero x \<and> is_inf y then NaN
      else if is_inf x \<or> is_inf y then signed_inf (sign_bit x \<noteq> sign_bit y)
      else if is_zero x \<or> is_zero y then signed_zero (sign_bit x \<noteq> sign_bit y)
      else round64 (val x * val y))"

definition divide_double :: "double \<Rightarrow> double \<Rightarrow> double" where
  "divide_double x y =
     (if x = NaN \<or> y = NaN then NaN
      else if is_inf x \<and> is_inf y \<or> is_zero x \<and> is_zero y then NaN
      else if is_inf x \<or> is_zero y then signed_inf (sign_bit x \<noteq> sign_bit y)
      else if is_inf y \<or> is_zero x then signed_zero (sign_bit x \<noteq> sign_bit y)
      else round64 (val x / val y))"

definition inverse_double :: "double \<Rightarrow> double" where
  "inverse_double x = divide (Finite 1) x"

instance ..

end

text \<open>An integer converted to a double (the C cast of a \<^verbatim>\<open>long\<close>, Ruby's conversion of an
  Integer): the nearest double, an infinity when the integer is out of range.\<close>

definition double_of_int :: "int \<Rightarrow> double" where
  "double_of_int i = round64 (real_of_int i)"

section \<open>Ruby values\<close>

text \<open>
  A Ruby \<^verbatim>\<open>VALUE\<close>, as far as the extension can tell values apart: the special constants,
  Integer, Float, String and Array.
\<close>

datatype rb_value =
    Qnil
  | Qtrue
  | Qfalse
  | T_FIXNUM int
  | T_FLOAT double
  | T_STRING string
  | T_ARRAY "rb_value list"

datatype rb_error = TypeError

text \<open>\<^verbatim>\<open>Check_Type(v, T_ARRAY)\<close> raises TypeError unless \<open>v\<close> is an Array; the model hands
  back the elements.\<close>

fun Check_Type_T_ARRAY :: "rb_value \<Rightarrow> rb_error + rb_value list" where
  "Check_Type_T_ARRAY (T_ARRAY xs) = Inr xs"
| "Check_Type_T_ARRAY _ = Inl TypeError"

text \<open>\<^verbatim>\<open>NUM2DBL\<close> gives the double of a Float, converts an Integer by rounding it to the
  nearest double, and raises TypeError on nil, true, false, a String or an Array.\<close>

fun NUM2DBL :: "rb_value \<Rightarrow> rb_error + double" where
  "NUM2DBL (T_FLOAT d) = Inr d"
| "NUM2DBL (T_FIXNUM i) = Inr (double_of_int i)"
| "NUM2DBL _ = Inl TypeError"

definition DBL2NUM :: "double \<Rightarrow> rb_value" where
  "DBL2NUM d = T_FLOAT d"

definition RARRAY_LEN :: "rb_value list \<Rightarrow> int" where
  "RARRAY_LEN ary = int (length ary)"

text \<open>\<^verbatim>\<open>rb_ary_entry\<close> never raises: a negative offset counts from the end, and an offset
  out of range gives nil.\<close>

definition rb_ary_entry :: "rb_value list \<Rightarrow> int \<Rightarrow> rb_value" where
  "rb_ary_entry ary offset =
     (let len = RARRAY_LEN ary;
          off = (if offset < 0 then offset + len else offset)
      in if off < 0 \<or> len \<le> off then Qnil else ary ! nat off)"

text \<open>\<^verbatim>\<open>rb_ary_new_from_args(3, a, b, c)\<close>: a fresh Array of the three values.\<close>

definition rb_ary_new_from_args :: "rb_value \<Rightarrow> rb_value \<Rightarrow> rb_value \<Rightarrow> rb_value" where
  "rb_ary_new_from_args a b c = T_ARRAY [a, b, c]"

definition SECONDS_PER_DAY :: double where
  "SECONDS_PER_DAY = Finite 86400"

section \<open>The evaluator\<close>

text \<open>The block both functions run on every element they read (lines 40-43, 54-57, 107-110):
  the element must be an Array, and its entries 0, 1 and 2 must convert to doubles.\<close>

definition read_c_ary :: "rb_value \<Rightarrow> rb_error + (double \<times> double \<times> double)" where
  "read_c_ary c_ary =
     (case Check_Type_T_ARRAY c_ary of Inl e \<Rightarrow> Inl e
      | Inr ary \<Rightarrow>
     (case NUM2DBL (rb_ary_entry ary 0) of Inl e \<Rightarrow> Inl e
      | Inr c0 \<Rightarrow>
     (case NUM2DBL (rb_ary_entry ary 1) of Inl e \<Rightarrow> Inl e
      | Inr c1 \<Rightarrow>
     (case NUM2DBL (rb_ary_entry ary 2) of Inl e \<Rightarrow> Inl e
      | Inr c2 \<Rightarrow> Inr (c0, c1, c2)))))"

record b_vars =
  b1x :: double
  b1y :: double
  b1z :: double
  b2x :: double
  b2y :: double
  b2z :: double

record d_vars =
  d1x :: double
  d1y :: double
  d1z :: double
  d2x :: double
  d2y :: double
  d2z :: double

text \<open>The loop of \<^verbatim>\<open>chebyshev_evaluate\<close> (lines 38-51), entered with the current \<open>k\<close>.\<close>

function chebyshev_evaluate_loop ::
  "rb_value list \<Rightarrow> double \<Rightarrow> int \<Rightarrow> b_vars \<Rightarrow> rb_error + b_vars" where
  "chebyshev_evaluate_loop rb_coeffs t2 k s =
     (if k > 0 then
        (case read_c_ary (rb_ary_entry rb_coeffs k) of Inl e \<Rightarrow> Inl e
         | Inr (c0, c1, c2) \<Rightarrow>
             chebyshev_evaluate_loop rb_coeffs t2 (k - 1)
               \<lparr>b1x = t2 * b1x s - b2x s + c0,
                b1y = t2 * b1y s - b2y s + c1,
                b1z = t2 * b1z s - b2z s + c2,
                b2x = b1x s, b2y = b1y s, b2z = b1z s\<rparr>)
      else Inr s)"
  by pat_completeness auto
termination
  by (relation "measure (\<lambda>(rb_coeffs, t2, k, s). nat k)") auto

declare chebyshev_evaluate_loop.simps [simp del]

definition chebyshev_evaluate :: "rb_value \<Rightarrow> rb_value \<Rightarrow> rb_error + rb_value" where
  "chebyshev_evaluate rb_coeffs rb_t =
     (case Check_Type_T_ARRAY rb_coeffs of Inl e \<Rightarrow> Inl e
      | Inr coeffs \<Rightarrow>
     (case NUM2DBL rb_t of Inl e \<Rightarrow> Inl e
      | Inr t \<Rightarrow>
     (let n = RARRAY_LEN coeffs;
          t2 = Finite 2 * t
      in case chebyshev_evaluate_loop coeffs t2 (n - 1)
                \<lparr>b1x = Finite 0, b1y = Finite 0, b1z = Finite 0,
                 b2x = Finite 0, b2y = Finite 0, b2z = Finite 0\<rparr> of
           Inl e \<Rightarrow> Inl e
         | Inr s \<Rightarrow>
        (case read_c_ary (rb_ary_entry coeffs 0) of Inl e \<Rightarrow> Inl e
         | Inr (c0, c1, c2) \<Rightarrow>
             Inr (rb_ary_new_from_args
                    (DBL2NUM (t * b1x s - b2x s + c0))
                    (DBL2NUM (t * b1y s - b2y s + c1))
                    (DBL2NUM (t * b1z s - b2z s + c2)))))))"

text \<open>The loop of \<^verbatim>\<open>chebyshev_evaluate_derivative\<close> (lines 105-119).\<close>

function chebyshev_evaluate_derivative_loop ::
  "rb_value list \<Rightarrow> double \<Rightarrow> int \<Rightarrow> d_vars \<Rightarrow> rb_error + d_vars" where
  "chebyshev_evaluate_derivative_loop rb_coeffs t2 k s =
     (if k > 0 then
        (case read_c_ary (rb_ary_entry rb_coeffs k) of Inl e \<Rightarrow> Inl e
         | Inr (c0, c1, c2) \<Rightarrow>
             (let k2 = Finite 2 * double_of_int k
              in chebyshev_evaluate_derivative_loop rb_coeffs t2 (k - 1)
                   \<lparr>d1x = t2 * d1x s - d2x s + k2 * c0,
                    d1y = t2 * d1y s - d2y s + k2 * c1,
                    d1z = t2 * d1z s - d2z s + k2 * c2,
                    d2x = d1x s, d2y = d1y s, d2z = d1z s\<rparr>))
      else Inr s)"
  by pat_completeness auto
termination
  by (relation "measure (\<lambda>(rb_coeffs, t2, k, s). nat k)") auto

declare chebyshev_evaluate_derivative_loop.simps [simp del]

definition chebyshev_evaluate_derivative ::
  "rb_value \<Rightarrow> rb_value \<Rightarrow> rb_value \<Rightarrow> rb_error + rb_value" where
  "chebyshev_evaluate_derivative rb_coeffs rb_t rb_radius =
     (case Check_Type_T_ARRAY rb_coeffs of Inl e \<Rightarrow> Inl e
      | Inr coeffs \<Rightarrow>
     (case NUM2DBL rb_t of Inl e \<Rightarrow> Inl e
      | Inr t \<Rightarrow>
     (case NUM2DBL rb_radius of Inl e \<Rightarrow> Inl e
      | Inr radius \<Rightarrow>
     (let n = RARRAY_LEN coeffs
      in if n < 2 then
           Inr (rb_ary_new_from_args
                  (DBL2NUM (Finite 0)) (DBL2NUM (Finite 0)) (DBL2NUM (Finite 0)))
         else
           (let t2 = Finite 2 * t
            in case chebyshev_evaluate_derivative_loop coeffs t2 (n - 1)
                      \<lparr>d1x = Finite 0, d1y = Finite 0, d1z = Finite 0,
                       d2x = Finite 0, d2y = Finite 0, d2z = Finite 0\<rparr> of
                 Inl e \<Rightarrow> Inl e
               | Inr s \<Rightarrow>
                   (let scale = SECONDS_PER_DAY / (Finite 2 * radius)
                    in Inr (rb_ary_new_from_args
                              (DBL2NUM (d1x s * scale))
                              (DBL2NUM (d1y s * scale))
                              (DBL2NUM (d1z s * scale)))))))))"

section \<open>Chebyshev series\<close>

text \<open>The Chebyshev polynomials of the first kind, by their three-term recurrence, and the
  series \<open>\<Sum>k<n. c\<^sub>k T\<^sub>k(t)\<close> of a coefficient list.\<close>

fun cheb_T :: "nat \<Rightarrow> real \<Rightarrow> real" where
  "cheb_T 0 t = 1"
| "cheb_T (Suc 0) t = t"
| "cheb_T (Suc (Suc k)) t = 2 * t * cheb_T (Suc k) t - cheb_T k t"

definition cheb_series :: "real list \<Rightarrow> real \<Rightarrow> real" where
  "cheb_series cs t = (\<Sum>k<length cs. cs ! k * cheb_T k t)"

text \<open>\<open>cheb_dT k\<close> is the recurrence of \<open>cheb_T k\<close> differentiated term by term;
  \<open>cheb_T_deriv\<close> below shows that it is the derivative.\<close>

fun cheb_dT :: "nat \<Rightarrow> real \<Rightarrow> real" where
  "cheb_dT 0 t = 0"
| "cheb_dT (Suc 0) t = 1"
| "cheb_dT (Suc (Suc k)) t = 2 * cheb_T (Suc k) t + 2 * t * cheb_dT (Suc k) t - cheb_dT k t"

definition cheb_series_deriv :: "real list \<Rightarrow> real \<Rightarrow> real" where
  "cheb_series_deriv cs t = (\<Sum>k<length cs. cs ! k * cheb_dT k t)"

text \<open>The second-kind polynomials shifted by one: \<open>cheb_V k = U\<^sub>k\<^sub>-\<^sub>1\<close>.\<close>

fun cheb_V :: "nat \<Rightarrow> real \<Rightarrow> real" where
  "cheb_V 0 t = 0"
| "cheb_V (Suc 0) t = 1"
| "cheb_V (Suc (Suc k)) t = 2 * t * cheb_V (Suc k) t - cheb_V k t"

text \<open>The recurrence of one axis in exact arithmetic: indices \<open>k\<close> down to 1, from the
  accumulators \<open>(b1, b2)\<close>.\<close>

fun clenshaw :: "(nat \<Rightarrow> real) \<Rightarrow> real \<Rightarrow> nat \<Rightarrow> real \<times> real \<Rightarrow> real \<times> real" where
  "clenshaw c t2 0 (b1, b2) = (b1, b2)"
| "clenshaw c t2 (Suc k) (b1, b2) = clenshaw c t2 k (t2 * b1 - b2 + c (Suc k), b1)"

section \<open>Runs without rounding\<close>

text \<open>
  Every operation of the recurrence of one axis gives a number that binary64 holds, so that
  no operation of the loop rounds, overflows or underflows: the product \<open>t2 b1\<close>, the
  difference and the sum of each iteration.
\<close>

fun clenshaw_exact :: "(nat \<Rightarrow> real) \<Rightarrow> real \<Rightarrow> nat \<Rightarrow> real \<times> real \<Rightarrow> bool" where
  "clenshaw_exact c t2 0 (b1, b2) = True"
| "clenshaw_exact c t2 (Suc k) (b1, b2) =
     (is_binary64 (t2 * b1) \<and> is_binary64 (t2 * b1 - b2)
      \<and> is_binary64 (t2 * b1 - b2 + c (Suc k))
      \<and> clenshaw_exact c t2 k (t2 * b1 - b2 + c (Suc k), b1))"

text \<open>The same for the terms \<open>k2 c\<^sub>k\<close> of the derivative loop: the cast of \<open>k\<close>, \<open>2 k\<close> and
  the product.\<close>

fun k2_exact :: "(nat \<Rightarrow> real) \<Rightarrow> nat \<Rightarrow> bool" where
  "k2_exact c 0 = True"
| "k2_exact c (Suc k) =
     (is_binary64 (real (Suc k)) \<and> is_binary64 (2 * real (Suc k))
      \<and> is_binary64 (2 * real (Suc k) * c (Suc k)) \<and> k2_exact c k)"

text \<open>A whole call of \<^verbatim>\<open>evaluate\<close> on one axis: \<open>2 t\<close>, the loop and the last step.\<close>

definition evaluate_exact :: "real list \<Rightarrow> real \<Rightarrow> bool" where
  "evaluate_exact cs t \<longleftrightarrow>
     is_binary64 (2 * t)
     \<and> clenshaw_exact (\<lambda>j. cs ! j) (2 * t) (length cs - 1) (0, 0)
     \<and> (case clenshaw (\<lambda>j. cs ! j) (2 * t) (length cs - 1) (0, 0) of
          (b1, b2) \<Rightarrow>
            is_binary64 (t * b1) \<and> is_binary64 (t * b1 - b2)
            \<and> is_binary64 (t * b1 - b2 + cs ! 0))"

text \<open>A whole call of \<^verbatim>\<open>evaluate_derivative\<close> on one axis: \<open>2 t\<close>, the loop, \<open>2 radius\<close>,
  the scale and the product with it.\<close>

definition evaluate_derivative_exact :: "real list \<Rightarrow> real \<Rightarrow> real \<Rightarrow> bool" where
  "evaluate_derivative_exact cs t r \<longleftrightarrow>
     is_binary64 (2 * t)
     \<and> k2_exact (\<lambda>j. cs ! j) (length cs - 1)
     \<and> clenshaw_exact (\<lambda>j. 2 * real j * cs ! j) (2 * t) (length cs - 1) (0, 0)
     \<and> is_binary64 (2 * r)
     \<and> is_binary64 (86400 / (2 * r))
     \<and> is_binary64
         (fst (clenshaw (\<lambda>j. 2 * real j * cs ! j) (2 * t) (length cs - 1) (0, 0))
          * (86400 / (2 * r)))"

section \<open>Well-formed coefficient records\<close>

text \<open>The real number of a coefficient component: a finite Float, or an Integer that
  binary64 holds exactly (so that its conversion does not round).\<close>

fun real_of_value :: "rb_value \<Rightarrow> real option" where
  "real_of_value (T_FLOAT (Finite x)) = (if is_binary64 x then Some x else None)"
| "real_of_value (T_FLOAT NegZero) = Some 0"
| "real_of_value (T_FIXNUM i) =
     (if is_binary64 (real_of_int i) then Some (real_of_int i) else None)"
| "real_of_value _ = None"

text \<open>A well-formed 3-vector is an Array of exactly three such components; \<open>vec3_of\<close> gives
  the three numbers.\<close>

fun vec3_of :: "rb_value \<Rightarrow> (real \<times> real \<times> real) option" where
  "vec3_of (T_ARRAY [a, b, c]) =
     (case (real_of_value a, real_of_value b, real_of_value c) of
        (Some x, Some y, Some z) \<Rightarrow> Some (x, y, z)
      | _ \<Rightarrow> None)"
| "vec3_of _ = None"

definition xs_of :: "(real \<times> real \<times> real) list \<Rightarrow> real list" where
  "xs_of cs = map fst cs"

definition ys_of :: "(real \<times> real \<times> real) list \<Rightarrow> real list" where
  "ys_of cs = map (\<lambda>v. fst (snd v)) cs"

definition zs_of :: "(real \<times> real \<times> real) list \<Rightarrow> real list" where
  "zs_of cs = map (\<lambda>v. snd (snd v)) cs"

definition vec :: "real \<Rightarrow> real \<Rightarrow> real \<Rightarrow> rb_value" where
  "vec x y z = T_ARRAY [T_FLOAT (Finite x), T_FLOAT (Finite y), T_FLOAT (Finite z)]"

text \<open>Every component of a coefficient vector multiplied by \<open>c\<close>.\<close>

definition scale3 :: "real \<Rightarrow> real \<times> real \<times> real \<Rightarrow> real \<times> real \<times> real" where
  "scale3 c v = (c * fst v, c * fst (snd v), c * snd (snd v))"

text \<open>How many components of an inner element convert to a double (none, if the element is
  not an Array).\<close>

definition numeric_components :: "rb_value \<Rightarrow> nat" where
  "numeric_components v =
     (case v of T_ARRAY ys \<Rightarrow> length (filter (\<lambda>y. \<not> isl (NUM2DBL y)) ys) | _ \<Rightarrow> 0)"

text \<open>An inner element cut down to its components 0, 1 and 2.\<close>

definition first3 :: "rb_value \<Rightarrow> rb_value" where
  "first3 v = (case v of T_ARRAY ys \<Rightarrow> T_ARRAY (take 3 ys) | _ \<Rightarrow> v)"

text \<open>The six accumulators of a loop all finite.\<close>

definition b_finite :: "b_vars \<Rightarrow> bool" where
  "b_finite s \<longleftrightarrow>
     is_finite (b1x s) \<and> is_finite (b1y s) \<and> is_finite (b1z s)
     \<and> is_finite (b2x s) \<and> is_finite (b2y s) \<and> is_finite (b2z s)"

definition d_finite :: "d_vars \<Rightarrow> bool" where
  "d_finite s \<longleftrightarrow>
     is_finite (d1x s) \<and> is_finite (d1y s) \<and> is_finite (d1z s)
     \<and> is_finite (d2x s) \<and> is_finite (d2y s) \<and> is_finite (d2z s)"

text \<open>The three axes of a call.\<close>

definition evaluate_exact3 :: "(real \<times> real \<times> real) list \<Rightarrow> real \<Rightarrow> bool" where
  "evaluate_exact3 cs t \<longleftrightarrow>
     evaluate_exact (xs_of cs) t \<and> evaluate_exact (ys_of cs) t \<and> evaluate_exact (zs_of cs) t"

definition evaluate_derivative_exact3 ::
  "(real \<times> real \<times> real) list \<Rightarrow> real \<Rightarrow> real \<Rightarrow> bool" where
  "evaluate_derivative_exact3 cs t r \<longleftrightarrow>
     evaluate_derivative_exact (xs_of cs) t r \<and> evaluate_derivative_exact (ys_of cs) t r
     \<and> evaluate_derivative_exact (zs_of cs) t r"

section \<open>Facts about rounding\<close>

lemma round_half_even_of_int: "round_half_even (of_int n) = n"
  by (simp add: round_half_even_def)

lemma round64_binade:
  assumes "2 powr of_int E \<le> \<bar>x\<bar>" and "\<bar>x\<bar> < 2 powr of_int (E + 1)" and "- 1022 \<le> E"
  shows "round64 x = round_at E x"
proof -
  have pos: "0 < \<bar>x\<bar>"
    using assms(1) by (smt (verit) powr_gt_zero)
  then have "x \<noteq> 0" by auto
  moreover have "\<lfloor>log 2 \<bar>x\<bar>\<rfloor> = E"
    using assms(1,2) pos by (subst floor_log_eq_powr_iff) (simp_all add: add.commute)
  ultimately show ?thesis
    using assms(3) by (simp add: round64_def)
qed

lemma round64_exact:
  assumes "is_binary64 x"
  shows "round64 x = Finite x"
proof (cases "x = 0")
  case True
  then show ?thesis by (simp add: round64_def)
next
  case False
  from assms obtain m e :: int where
    x: "x = of_int m * 2 powr of_int e" and m: "\<bar>m\<bar> < 2 ^ 53" and e: "- 1074 \<le> e" "e \<le> 971"
    by (auto simp: is_binary64_def)
  have ax: "\<bar>x\<bar> = of_int \<bar>m\<bar> * 2 powr of_int e"
    by (simp add: x abs_mult)
  have m0: "m \<noteq> 0" using False x by auto
  have pos: "0 < \<bar>x\<bar>" using False by simp
  define E where "E = \<lfloor>log 2 \<bar>x\<bar>\<rfloor>"
  define q where "q = max E (- 1022) - 52"
  have "\<bar>x\<bar> < 2 powr of_int (53 + e)"
  proof -
    have "real_of_int \<bar>m\<bar> < 2 ^ 53" using m by (metis of_int_less_iff of_int_numeral of_int_power)
    then have "real_of_int \<bar>m\<bar> * 2 powr of_int e < 2 ^ 53 * 2 powr of_int e"
      by (intro mult_strict_right_mono) simp_all
    also have "\<dots> = 2 powr of_int (53 + e)"
      by (simp add: powr_add)
    finally show ?thesis by (simp add: ax)
  qed
  then have "log 2 \<bar>x\<bar> < of_int (53 + e)"
    using pos by (simp add: log_less_iff)
  then have "E < 53 + e"
    unfolding E_def by (simp add: floor_less_iff)
  with e have qe: "q \<le> e" by (simp add: q_def)
  define N where "N = \<bar>m\<bar> * 2 ^ nat (e - q)"
  have pw: "(2::real) powr of_int e = 2 ^ nat (e - q) * 2 powr of_int q"
  proof -
    have "(2::real) powr of_int e = (2::real) powr (of_int (e - q) + of_int q)" by simp
    also have "\<dots> = 2 powr of_int (e - q) * 2 powr of_int q" by (rule powr_add)
    also have "2 powr of_int (e - q) = (2::real) ^ nat (e - q)"
      using qe powr_real_of_int [of 2 "e - q"] by simp
    finally show ?thesis .
  qed
  have quot: "\<bar>x\<bar> / 2 powr of_int q = of_int N"
    by (simp add: ax pw N_def)
  have recon: "of_int N * 2 powr of_int q = \<bar>x\<bar>"
    by (simp add: ax pw N_def)
  have N0: "N \<noteq> 0" using m0 by (simp add: N_def)
  have small: "\<bar>x\<bar> < 2 ^ 1024"
  proof -
    have "\<bar>x\<bar> < 2 powr of_int (53 + e)" by fact
    also have "\<dots> \<le> 2 powr 1024"
      by (rule powr_mono) (use e in simp_all)
    also have "\<dots> = 2 ^ 1024" by simp
    finally show ?thesis .
  qed
  have "round64 x = round_at (max E (- 1022)) x"
    using False by (simp add: round64_def E_def)
  also have "\<dots> = Finite x"
  proof -
    have n: "round_half_even (\<bar>x\<bar> / 2 powr of_int (max E (- 1022) - 52)) = N"
      using quot round_half_even_of_int [of N] by (simp add: q_def)
    have y: "of_int N * 2 powr of_int (max E (- 1022) - 52) = \<bar>x\<bar>"
      using recon by (simp add: q_def)
    have big: "\<not> 2 ^ 1024 \<le> \<bar>x\<bar>"
      using small by simp
    show ?thesis
      unfolding round_at_def Let_def n y
      by (simp only: big N0 if_False) simp
  qed
  finally show ?thesis .
qed

lemma is_binary64_of_int: "\<bar>i\<bar> < 2 ^ 53 \<Longrightarrow> is_binary64 (of_int i)"
  unfolding is_binary64_def by (intro exI [of _ i] exI [of _ 0]) simp

lemma is_binary64_dyadic:
  assumes "\<bar>i\<bar> < 2 ^ 53" and "k \<le> 1074"
  shows "is_binary64 (of_int i / 2 ^ k)"
proof -
  have "real_of_int i / 2 ^ k = real_of_int i * 2 powr real_of_int (- int k)"
    by (simp add: powr_minus powr_realpow divide_inverse)
  moreover have "- 1074 \<le> - int k" "- int k \<le> 971"
    using assms(2) by simp_all
  ultimately show ?thesis
    unfolding is_binary64_def using assms(1) by blast
qed

lemma is_binary64_0 [simp]: "is_binary64 0"
  using is_binary64_of_int [of 0] by simp

lemma is_binary64_1 [simp]: "is_binary64 1"
  using is_binary64_of_int [of 1] by simp

lemma is_binary64_numeral [simp]:
  "(numeral n :: int) < 2 ^ 53 \<Longrightarrow> is_binary64 (numeral n)"
  using is_binary64_of_int [of "numeral n"] by simp

lemma is_binary64_uminus: "is_binary64 y \<Longrightarrow> is_binary64 (- y)"
proof -
  assume "is_binary64 y"
  then obtain m e :: int where
    "y = of_int m * 2 powr of_int e" "\<bar>m\<bar> < 2 ^ 53" "- 1074 \<le> e" "e \<le> 971"
    by (auto simp: is_binary64_def)
  then have "- y = of_int (- m) * 2 powr of_int e \<and> \<bar>- m\<bar> < 2 ^ 53 \<and> - 1074 \<le> e \<and> e \<le> 971"
    by simp
  then show "is_binary64 (- y)"
    unfolding is_binary64_def by blast
qed

lemma is_binary64_minus [simp]: "is_binary64 (- x) \<longleftrightarrow> is_binary64 x"
  using is_binary64_uminus [of x] is_binary64_uminus [of "- x"] by auto

lemma double_of_int_exact:
  "is_binary64 (real_of_int i) \<Longrightarrow> double_of_int i = Finite (real_of_int i)"
  by (simp add: double_of_int_def round64_exact)

subsection \<open>The operations on finite doubles\<close>

lemma plus_Finite: "Finite a + Finite b = round64 (a + b)"
  by (simp add: plus_double_def)

lemma minus_Finite: "Finite a - Finite b = round64 (a - b)"
  by (simp add: minus_double_def plus_double_def)

lemma times_Finite:
  "Finite a * Finite b =
     (if a = 0 \<or> b = 0 then signed_zero ((a < 0) \<noteq> (b < 0)) else round64 (a * b))"
  by (simp add: times_double_def)

lemma divide_Finite:
  "Finite a / Finite b =
     (if b = 0 then (if a = 0 then NaN else signed_inf (a < 0))
      else if a = 0 then signed_zero (b < 0)
      else round64 (a / b))"
  by (simp add: divide_double_def)

lemma is_finite_cases:
  assumes "is_finite x"
  obtains a where "x = Finite a" | "x = NegZero"
  using assms by (cases x) simp_all

lemma dneg_exact: "is_finite y \<Longrightarrow> is_finite (dneg y) \<and> val (dneg y) = - val y"
  by (cases y) simp_all

lemma plus_exact:
  assumes "is_finite x" and "is_finite y" and "is_binary64 (val x + val y)"
  shows "is_finite (x + y) \<and> val (x + y) = val x + val y"
proof (cases "x = NegZero \<and> y = NegZero")
  case True
  then show ?thesis by (simp add: plus_double_def)
next
  case False
  have "x + y = round64 (val x + val y)"
    using assms(1,2) False
    by (elim is_finite_cases) (simp_all add: plus_double_def)
  then show ?thesis
    using assms(3) by (simp add: round64_exact)
qed

lemma minus_exact:
  assumes "is_finite x" and "is_finite y" and "is_binary64 (val x - val y)"
  shows "is_finite (x - y) \<and> val (x - y) = val x - val y"
  using plus_exact [of x "dneg y"] dneg_exact [OF assms(2)] assms(1,3)
  by (simp add: minus_double_def)

lemma times_exact:
  assumes "is_finite x" and "is_finite y" and "is_binary64 (val x * val y)"
  shows "is_finite (x * y) \<and> val (x * y) = val x * val y"
proof (cases "is_zero x \<or> is_zero y")
  case True
  then have "x * y = signed_zero (sign_bit x \<noteq> sign_bit y)"
    using assms(1,2) by (elim is_finite_cases) (simp_all add: times_double_def)
  moreover have "val x * val y = 0"
    using True assms(1,2) by (elim is_finite_cases) auto
  ultimately show ?thesis
    by (simp add: signed_zero_def)
next
  case False
  then have "x * y = round64 (val x * val y)"
    using assms(1,2) by (elim is_finite_cases) (simp_all add: times_double_def)
  then show ?thesis
    using assms(3) by (simp add: round64_exact)
qed

lemma divide_exact:
  assumes "is_finite x" and "is_finite y" and "val y \<noteq> 0"
    and "is_binary64 (val x / val y)"
  shows "is_finite (x / y) \<and> val (x / y) = val x / val y"
proof (cases "is_zero x")
  case True
  then have "x / y = signed_zero (sign_bit x \<noteq> sign_bit y)"
    using assms(1,2,3) by (elim is_finite_cases) (simp_all add: divide_double_def)
  moreover have "val x / val y = 0"
    using True assms(1) by (elim is_finite_cases) auto
  ultimately show ?thesis
    by (simp add: signed_zero_def)
next
  case False
  then have "x / y = round64 (val x / val y)"
    using assms(1,2,3) by (elim is_finite_cases) (simp_all add: divide_double_def)
  then show ?thesis
    using assms(4) by (simp add: round64_exact)
qed

text \<open>One step of either recurrence, \<open>t b1 - b2 + c\<close>, when none of its operations rounds.\<close>

lemma step_exact:
  assumes "is_finite t" and "is_finite b1" and "is_finite b2" and "is_finite c"
    and "is_binary64 (val t * val b1)"
    and "is_binary64 (val t * val b1 - val b2)"
    and "is_binary64 (val t * val b1 - val b2 + val c)"
  shows "is_finite (t * b1 - b2 + c) \<and> val (t * b1 - b2 + c) = val t * val b1 - val b2 + val c"
proof -
  note p = times_exact [OF assms(1,2,5)]
  have m: "is_finite (t * b1 - b2) \<and> val (t * b1 - b2) = val t * val b1 - val b2"
    using minus_exact [of "t * b1" b2] p assms(3,6) by simp
  show ?thesis
    using plus_exact [of "t * b1 - b2" c] m assms(4,7) by simp
qed

section \<open>Auxiliary facts about the Ruby API\<close>

lemma rb_error_TypeError: "(e :: rb_error) = TypeError"
  by (cases e) simp

lemma rb_ary_entry_nth:
  "0 \<le> k \<Longrightarrow> k < int (length ary) \<Longrightarrow> rb_ary_entry ary k = ary ! nat k"
  by (simp add: rb_ary_entry_def RARRAY_LEN_def Let_def)

lemma rb_ary_entry_Qnil:
  "0 \<le> k \<Longrightarrow> int (length ary) \<le> k \<Longrightarrow> rb_ary_entry ary k = Qnil"
  by (simp add: rb_ary_entry_def RARRAY_LEN_def Let_def)

text \<open>Rewrite rules that run the operations on doubles that binary64 holds exactly.\<close>

lemmas fp_eval =
  plus_Finite minus_Finite times_Finite divide_Finite round64_exact double_of_int_def
  signed_zero_def signed_inf_def

section \<open>What the two functions read, and when they raise\<close>

lemma evaluate_loop_cong:
  assumes "\<forall>j. 0 < j \<and> j \<le> k \<longrightarrow>
             read_c_ary (rb_ary_entry a j) = read_c_ary (rb_ary_entry b j)"
  shows "chebyshev_evaluate_loop a t2 k s = chebyshev_evaluate_loop b t2 k s"
  using assms
proof (induction a t2 k s rule: chebyshev_evaluate_loop.induct)
  case (1 a t2 k s)
  show ?case
  proof (cases "k > 0")
    case False
    then show ?thesis
      by (simp add: chebyshev_evaluate_loop.simps [of a t2 k s]
            chebyshev_evaluate_loop.simps [of b t2 k s])
  next
    case True
    have rd: "read_c_ary (rb_ary_entry b k) = read_c_ary (rb_ary_entry a k)"
      using "1.prems" True by simp
    show ?thesis
    proof (cases "read_c_ary (rb_ary_entry a k)")
      case (Inl e)
      then show ?thesis
        using True rd
        by (simp add: chebyshev_evaluate_loop.simps [of a t2 k s]
              chebyshev_evaluate_loop.simps [of b t2 k s])
    next
      case (Inr c)
      obtain c0 c1 c2 where c: "c = (c0, c1, c2)" by (cases c)
      have rest: "\<forall>j. 0 < j \<and> j \<le> k - 1 \<longrightarrow>
             read_c_ary (rb_ary_entry a j) = read_c_ary (rb_ary_entry b j)"
        using "1.prems" by simp
      note IH = "1.IH" [OF True Inr [unfolded c] refl refl rest]
      show ?thesis
        using True rd Inr c IH
        by (simp add: chebyshev_evaluate_loop.simps [of a t2 k s]
              chebyshev_evaluate_loop.simps [of b t2 k s])
    qed
  qed
qed

lemma evaluate_derivative_loop_cong:
  assumes "\<forall>j. 0 < j \<and> j \<le> k \<longrightarrow>
             read_c_ary (rb_ary_entry a j) = read_c_ary (rb_ary_entry b j)"
  shows "chebyshev_evaluate_derivative_loop a t2 k s
           = chebyshev_evaluate_derivative_loop b t2 k s"
  using assms
proof (induction a t2 k s rule: chebyshev_evaluate_derivative_loop.induct)
  case (1 a t2 k s)
  show ?case
  proof (cases "k > 0")
    case False
    then show ?thesis
      by (simp add: chebyshev_evaluate_derivative_loop.simps [of a t2 k s]
            chebyshev_evaluate_derivative_loop.simps [of b t2 k s])
  next
    case True
    have rd: "read_c_ary (rb_ary_entry b k) = read_c_ary (rb_ary_entry a k)"
      using "1.prems" True by simp
    show ?thesis
    proof (cases "read_c_ary (rb_ary_entry a k)")
      case (Inl e)
      then show ?thesis
        using True rd
        by (simp add: chebyshev_evaluate_derivative_loop.simps [of a t2 k s]
              chebyshev_evaluate_derivative_loop.simps [of b t2 k s])
    next
      case (Inr c)
      obtain c0 c1 c2 where c: "c = (c0, c1, c2)" by (cases c)
      have rest: "\<forall>j. 0 < j \<and> j \<le> k - 1 \<longrightarrow>
             read_c_ary (rb_ary_entry a j) = read_c_ary (rb_ary_entry b j)"
        using "1.prems" by simp
      note IH = "1.IH" [OF True Inr [unfolded c] refl refl refl rest]
      show ?thesis
        using True rd Inr c IH
        by (simp add: chebyshev_evaluate_derivative_loop.simps [of a t2 k s]
              chebyshev_evaluate_derivative_loop.simps [of b t2 k s] Let_def)
    qed
  qed
qed

lemma evaluate_loop_isl:
  "isl (chebyshev_evaluate_loop a t2 k s)
     \<longleftrightarrow> (\<exists>j. 0 < j \<and> j \<le> k \<and> isl (read_c_ary (rb_ary_entry a j)))"
proof (induction a t2 k s rule: chebyshev_evaluate_loop.induct)
  case (1 a t2 k s)
  show ?case
  proof (cases "k > 0")
    case False
    then show ?thesis
      by (simp add: chebyshev_evaluate_loop.simps [of a t2 k s])
  next
    case True
    show ?thesis
    proof (cases "read_c_ary (rb_ary_entry a k)")
      case (Inl e)
      then have "isl (read_c_ary (rb_ary_entry a k))" by simp
      with True have "\<exists>j. 0 < j \<and> j \<le> k \<and> isl (read_c_ary (rb_ary_entry a j))"
        by blast
      with True Inl show ?thesis
        by (simp add: chebyshev_evaluate_loop.simps [of a t2 k s])
    next
      case (Inr c)
      obtain c0 c1 c2 where c: "c = (c0, c1, c2)" by (cases c)
      note IH = "1.IH" [OF True Inr [unfolded c] refl refl]
      have "(\<exists>j. 0 < j \<and> j \<le> k \<and> isl (read_c_ary (rb_ary_entry a j)))
          \<longleftrightarrow> (\<exists>j. 0 < j \<and> j \<le> k - 1 \<and> isl (read_c_ary (rb_ary_entry a j)))"
      proof
        assume "\<exists>j. 0 < j \<and> j \<le> k \<and> isl (read_c_ary (rb_ary_entry a j))"
        then obtain j where j: "0 < j" "j \<le> k" "isl (read_c_ary (rb_ary_entry a j))"
          by blast
        with Inr have "j \<noteq> k" by auto
        with j show "\<exists>j. 0 < j \<and> j \<le> k - 1 \<and> isl (read_c_ary (rb_ary_entry a j))"
          by (intro exI [of _ j]) simp
      next
        assume "\<exists>j. 0 < j \<and> j \<le> k - 1 \<and> isl (read_c_ary (rb_ary_entry a j))"
        then obtain j where "0 < j" "j \<le> k - 1" "isl (read_c_ary (rb_ary_entry a j))"
          by blast
        then show "\<exists>j. 0 < j \<and> j \<le> k \<and> isl (read_c_ary (rb_ary_entry a j))"
          by (intro exI [of _ j]) simp
      qed
      with True Inr c IH show ?thesis
        by (simp add: chebyshev_evaluate_loop.simps [of a t2 k s])
    qed
  qed
qed

lemma evaluate_derivative_loop_isl:
  "isl (chebyshev_evaluate_derivative_loop a t2 k s)
     \<longleftrightarrow> (\<exists>j. 0 < j \<and> j \<le> k \<and> isl (read_c_ary (rb_ary_entry a j)))"
proof (induction a t2 k s rule: chebyshev_evaluate_derivative_loop.induct)
  case (1 a t2 k s)
  show ?case
  proof (cases "k > 0")
    case False
    then show ?thesis
      by (simp add: chebyshev_evaluate_derivative_loop.simps [of a t2 k s])
  next
    case True
    show ?thesis
    proof (cases "read_c_ary (rb_ary_entry a k)")
      case (Inl e)
      then have "isl (read_c_ary (rb_ary_entry a k))" by simp
      with True have "\<exists>j. 0 < j \<and> j \<le> k \<and> isl (read_c_ary (rb_ary_entry a j))"
        by blast
      with True Inl show ?thesis
        by (simp add: chebyshev_evaluate_derivative_loop.simps [of a t2 k s])
    next
      case (Inr c)
      obtain c0 c1 c2 where c: "c = (c0, c1, c2)" by (cases c)
      note IH = "1.IH" [OF True Inr [unfolded c] refl refl refl]
      have "(\<exists>j. 0 < j \<and> j \<le> k \<and> isl (read_c_ary (rb_ary_entry a j)))
          \<longleftrightarrow> (\<exists>j. 0 < j \<and> j \<le> k - 1 \<and> isl (read_c_ary (rb_ary_entry a j)))"
      proof
        assume "\<exists>j. 0 < j \<and> j \<le> k \<and> isl (read_c_ary (rb_ary_entry a j))"
        then obtain j where j: "0 < j" "j \<le> k" "isl (read_c_ary (rb_ary_entry a j))"
          by blast
        with Inr have "j \<noteq> k" by auto
        with j show "\<exists>j. 0 < j \<and> j \<le> k - 1 \<and> isl (read_c_ary (rb_ary_entry a j))"
          by (intro exI [of _ j]) simp
      next
        assume "\<exists>j. 0 < j \<and> j \<le> k - 1 \<and> isl (read_c_ary (rb_ary_entry a j))"
        then obtain j where "0 < j" "j \<le> k - 1" "isl (read_c_ary (rb_ary_entry a j))"
          by blast
        then show "\<exists>j. 0 < j \<and> j \<le> k \<and> isl (read_c_ary (rb_ary_entry a j))"
          by (intro exI [of _ j]) simp
      qed
      with True Inr c IH show ?thesis
        by (simp add: chebyshev_evaluate_derivative_loop.simps [of a t2 k s] Let_def)
    qed
  qed
qed

lemma read_c_ary_first3: "read_c_ary (first3 v) = read_c_ary v"
proof (cases v)
  case (T_ARRAY ys)
  have "rb_ary_entry (take 3 ys) i = rb_ary_entry ys i" if "i = 0 \<or> i = 1 \<or> i = 2" for i
    using that by (auto simp: rb_ary_entry_def RARRAY_LEN_def Let_def min_def split: if_splits)
  then have e: "rb_ary_entry (take 3 ys) 0 = rb_ary_entry ys 0"
    "rb_ary_entry (take 3 ys) 1 = rb_ary_entry ys 1"
    "rb_ary_entry (take 3 ys) 2 = rb_ary_entry ys 2"
    by simp_all
  show ?thesis
    unfolding T_ARRAY first3_def read_c_ary_def rb_value.case Check_Type_T_ARRAY.simps
      sum.case e ..
qed (simp_all add: first3_def)

lemma rb_ary_entry_map_first3:
  "read_c_ary (rb_ary_entry (map first3 a) j) = read_c_ary (rb_ary_entry a j)"
proof -
  have "rb_ary_entry (map first3 a) j = first3 (rb_ary_entry a j)"
    by (simp add: rb_ary_entry_def RARRAY_LEN_def Let_def first3_def)
  then show ?thesis by (simp add: read_c_ary_first3)
qed

lemma evaluate_first3:
  "chebyshev_evaluate (T_ARRAY (map first3 a)) rb_t = chebyshev_evaluate (T_ARRAY a) rb_t"
proof -
  have loop: "chebyshev_evaluate_loop (map first3 a) t2 k s = chebyshev_evaluate_loop a t2 k s"
    for t2 k s
    by (rule evaluate_loop_cong) (simp add: rb_ary_entry_map_first3)
  have len: "RARRAY_LEN (map first3 a) = RARRAY_LEN a"
    by (simp add: RARRAY_LEN_def)
  show ?thesis
    unfolding chebyshev_evaluate_def Check_Type_T_ARRAY.simps sum.case loop len
      rb_ary_entry_map_first3 ..
qed

lemma evaluate_derivative_first3:
  "chebyshev_evaluate_derivative (T_ARRAY (map first3 a)) rb_t rb_radius
     = chebyshev_evaluate_derivative (T_ARRAY a) rb_t rb_radius"
proof -
  have loop: "chebyshev_evaluate_derivative_loop (map first3 a) t2 k s
      = chebyshev_evaluate_derivative_loop a t2 k s" for t2 k s
    by (rule evaluate_derivative_loop_cong) (simp add: rb_ary_entry_map_first3)
  have len: "RARRAY_LEN (map first3 a) = RARRAY_LEN a"
    by (simp add: RARRAY_LEN_def)
  show ?thesis
    unfolding chebyshev_evaluate_derivative_def Check_Type_T_ARRAY.simps sum.case loop len ..
qed

text \<open>
  Claim C10. Both functions read only components 0, 1 and 2 of an inner vector: two records
  that agree once every inner vector is cut to its first three components give equal results
  (equal errors included), and a record gives the result of its cut-down copy, so a vector of
  more than three components is accepted whenever its first three are.
\<close>

theorem only_first_three_components_read:
  assumes "map first3 a = map first3 b"
  shows "chebyshev_evaluate (T_ARRAY a) rb_t = chebyshev_evaluate (T_ARRAY b) rb_t
       \<and> chebyshev_evaluate_derivative (T_ARRAY a) rb_t rb_radius
           = chebyshev_evaluate_derivative (T_ARRAY b) rb_t rb_radius
       \<and> chebyshev_evaluate (T_ARRAY a) rb_t = chebyshev_evaluate (T_ARRAY (map first3 a)) rb_t
       \<and> chebyshev_evaluate_derivative (T_ARRAY a) rb_t rb_radius
           = chebyshev_evaluate_derivative (T_ARRAY (map first3 a)) rb_t rb_radius"
proof -
  have "chebyshev_evaluate (T_ARRAY a) rb_t = chebyshev_evaluate (T_ARRAY b) rb_t"
    using evaluate_first3 [of a rb_t] evaluate_first3 [of b rb_t] assms by simp
  moreover have "chebyshev_evaluate_derivative (T_ARRAY a) rb_t rb_radius
           = chebyshev_evaluate_derivative (T_ARRAY b) rb_t rb_radius"
    using evaluate_derivative_first3 [of a rb_t rb_radius]
      evaluate_derivative_first3 [of b rb_t rb_radius] assms by simp
  ultimately show ?thesis
    by (simp add: evaluate_first3 evaluate_derivative_first3)
qed

theorem only_first_three_components_read_witness:
  "map first3 [T_ARRAY [T_FIXNUM 2, T_FIXNUM 0, T_FIXNUM 0, Qnil],
               T_ARRAY [T_FIXNUM 1, T_FIXNUM 2, T_FIXNUM 3, T_STRING ''x'', Qtrue]]
     = map first3 [T_ARRAY [T_FIXNUM 2, T_FIXNUM 0, T_FIXNUM 0],
                   T_ARRAY [T_FIXNUM 1, T_FIXNUM 2, T_FIXNUM 3, T_FIXNUM 9]]
   \<and> chebyshev_evaluate
       (T_ARRAY [T_ARRAY [T_FIXNUM 2, T_FIXNUM 0, T_FIXNUM 0, Qnil],
                 T_ARRAY [T_FIXNUM 1, T_FIXNUM 2, T_FIXNUM 3, T_STRING ''x'', Qtrue]])
       (T_FIXNUM 1)
     = Inr (T_ARRAY [T_FLOAT (Finite 3), T_FLOAT (Finite 2), T_FLOAT (Finite 3)])
   \<and> chebyshev_evaluate
       (T_ARRAY [T_ARRAY [T_FIXNUM 2, T_FIXNUM 0, T_FIXNUM 0],
                 T_ARRAY [T_FIXNUM 1, T_FIXNUM 2, T_FIXNUM 3, T_FIXNUM 9]])
       (T_FIXNUM 1)
     = Inr (T_ARRAY [T_FLOAT (Finite 3), T_FLOAT (Finite 2), T_FLOAT (Finite 3)])
   \<and> chebyshev_evaluate_derivative
       (T_ARRAY [T_ARRAY [T_FIXNUM 2, T_FIXNUM 0, T_FIXNUM 0, Qnil],
                 T_ARRAY [T_FIXNUM 1, T_FIXNUM 2, T_FIXNUM 3, T_STRING ''x'', Qtrue]])
       (T_FIXNUM 1) (T_FIXNUM 1)
     = chebyshev_evaluate_derivative
       (T_ARRAY [T_ARRAY [T_FIXNUM 2, T_FIXNUM 0, T_FIXNUM 0],
                 T_ARRAY [T_FIXNUM 1, T_FIXNUM 2, T_FIXNUM 3, T_FIXNUM 9]])
       (T_FIXNUM 1) (T_FIXNUM 1)"
proof -
  have eq: "map first3 [T_ARRAY [T_FIXNUM 2, T_FIXNUM 0, T_FIXNUM 0, Qnil],
               T_ARRAY [T_FIXNUM 1, T_FIXNUM 2, T_FIXNUM 3, T_STRING ''x'', Qtrue]]
     = map first3 [T_ARRAY [T_FIXNUM 2, T_FIXNUM 0, T_FIXNUM 0],
                   T_ARRAY [T_FIXNUM 1, T_FIXNUM 2, T_FIXNUM 3, T_FIXNUM 9]]"
    by (simp add: first3_def)
  have val: "chebyshev_evaluate
       (T_ARRAY [T_ARRAY [T_FIXNUM 2, T_FIXNUM 0, T_FIXNUM 0],
                 T_ARRAY [T_FIXNUM 1, T_FIXNUM 2, T_FIXNUM 3, T_FIXNUM 9]])
       (T_FIXNUM 1)
     = Inr (T_ARRAY [T_FLOAT (Finite 3), T_FLOAT (Finite 2), T_FLOAT (Finite 3)])"
    by (simp add: chebyshev_evaluate_def chebyshev_evaluate_loop.simps RARRAY_LEN_def
          rb_ary_entry_def read_c_ary_def rb_ary_new_from_args_def DBL2NUM_def Let_def fp_eval)
  show ?thesis
    using only_first_three_components_read [OF eq, of "T_FIXNUM 1" "T_FIXNUM 1"] eq val
    by simp
qed

lemma rb_ary_entry_tail:
  assumes "length a = length b"
    and "\<forall>k. 1 \<le> k \<and> k < length a \<longrightarrow> a ! k = b ! k"
    and "0 < j"
  shows "rb_ary_entry a j = rb_ary_entry b j"
proof (cases "j < int (length a)")
  case True
  with assms(3) have "1 \<le> nat j \<and> nat j < length a" by auto
  with assms(2) have "a ! nat j = b ! nat j" by blast
  with True assms(1,3) show ?thesis
    by (simp add: rb_ary_entry_def RARRAY_LEN_def Let_def)
next
  case False
  with assms(1,3) show ?thesis
    by (simp add: rb_ary_entry_def RARRAY_LEN_def Let_def)
qed

lemma sum_isl_TypeError: "isl r \<longleftrightarrow> r = Inl TypeError" for r :: "rb_error + 'a"
  by (cases r) (simp_all add: rb_error_TypeError)

lemma evaluate_derivative_isl:
  "isl (chebyshev_evaluate_derivative (T_ARRAY a) rb_t rb_radius)
     \<longleftrightarrow> isl (NUM2DBL rb_t) \<or> isl (NUM2DBL rb_radius)
          \<or> (\<exists>j. 0 < j \<and> j < int (length a) \<and> isl (read_c_ary (rb_ary_entry a j)))"
proof (cases "NUM2DBL rb_t")
  case (Inl e)
  then show ?thesis by (simp add: chebyshev_evaluate_derivative_def)
next
  case t: (Inr t)
  show ?thesis
  proof (cases "NUM2DBL rb_radius")
    case (Inl e)
    with t show ?thesis by (simp add: chebyshev_evaluate_derivative_def)
  next
    case r: (Inr r)
    show ?thesis
    proof (cases "length a < 2")
      case True
      have "\<not> (\<exists>j. 0 < j \<and> j < int (length a) \<and> isl (read_c_ary (rb_ary_entry a j)))"
        using True by auto
      with True t r show ?thesis
        by (simp add: chebyshev_evaluate_derivative_def RARRAY_LEN_def)
    next
      case False
      have bound: "(\<exists>j. 0 < j \<and> j \<le> int (length a) - 1 \<and> isl (read_c_ary (rb_ary_entry a j)))
          \<longleftrightarrow> (\<exists>j. 0 < j \<and> j < int (length a) \<and> isl (read_c_ary (rb_ary_entry a j)))"
        by (metis zle_diff1_eq)
      show ?thesis
      proof (cases "chebyshev_evaluate_derivative_loop a (Finite 2 * t) (int (length a) - 1)
                      \<lparr>d1x = Finite 0, d1y = Finite 0, d1z = Finite 0,
                       d2x = Finite 0, d2y = Finite 0, d2z = Finite 0\<rparr>")
        case (Inl e)
        with evaluate_derivative_loop_isl [of a "Finite 2 * t" "int (length a) - 1"] bound
        have "\<exists>j. 0 < j \<and> j < int (length a) \<and> isl (read_c_ary (rb_ary_entry a j))"
          by (metis sum.disc(1))
        with Inl False t r show ?thesis
          by (simp add: chebyshev_evaluate_derivative_def RARRAY_LEN_def)
      next
        case (Inr s)
        with evaluate_derivative_loop_isl [of a "Finite 2 * t" "int (length a) - 1"] bound
        have "\<not> (\<exists>j. 0 < j \<and> j < int (length a) \<and> isl (read_c_ary (rb_ary_entry a j)))"
          by (metis sum.disc(2))
        with Inr False t r show ?thesis
          by (simp add: chebyshev_evaluate_derivative_def RARRAY_LEN_def Let_def)
      qed
    qed
  qed
qed

lemma evaluate_isl:
  "isl (chebyshev_evaluate (T_ARRAY a) rb_t)
     \<longleftrightarrow> isl (NUM2DBL rb_t)
          \<or> (\<exists>j. 0 < j \<and> j < int (length a) \<and> isl (read_c_ary (rb_ary_entry a j)))
          \<or> isl (read_c_ary (rb_ary_entry a 0))"
proof (cases "NUM2DBL rb_t")
  case (Inl e)
  then show ?thesis by (simp add: chebyshev_evaluate_def)
next
  case t: (Inr t)
  have bound: "(\<exists>j. 0 < j \<and> j \<le> int (length a) - 1 \<and> isl (read_c_ary (rb_ary_entry a j)))
      \<longleftrightarrow> (\<exists>j. 0 < j \<and> j < int (length a) \<and> isl (read_c_ary (rb_ary_entry a j)))"
    by (metis zle_diff1_eq)
  show ?thesis
  proof (cases "chebyshev_evaluate_loop a (Finite 2 * t) (int (length a) - 1)
                  \<lparr>b1x = Finite 0, b1y = Finite 0, b1z = Finite 0,
                   b2x = Finite 0, b2y = Finite 0, b2z = Finite 0\<rparr>")
    case (Inl e)
    with evaluate_loop_isl [of a "Finite 2 * t" "int (length a) - 1"] bound
    have "\<exists>j. 0 < j \<and> j < int (length a) \<and> isl (read_c_ary (rb_ary_entry a j))"
      by (metis sum.disc(1))
    with Inl t show ?thesis
      by (simp add: chebyshev_evaluate_def RARRAY_LEN_def)
  next
    case (Inr s)
    with evaluate_loop_isl [of a "Finite 2 * t" "int (length a) - 1"] bound
    have no: "\<not> (\<exists>j. 0 < j \<and> j < int (length a) \<and> isl (read_c_ary (rb_ary_entry a j)))"
      by (metis sum.disc(2))
    show ?thesis
    proof (cases "read_c_ary (rb_ary_entry a 0)")
      case (Inl e)
      with Inr t show ?thesis
        by (simp add: chebyshev_evaluate_def RARRAY_LEN_def)
    next
      case c: (Inr c)
      obtain c0 c1 c2 where "c = (c0, c1, c2)" by (cases c)
      with c Inr t no show ?thesis
        by (simp add: chebyshev_evaluate_def RARRAY_LEN_def Let_def)
    qed
  qed
qed

lemma index_int_nat:
  "(\<exists>j. 0 < j \<and> j < int (length a) \<and> isl (read_c_ary (rb_ary_entry a j)))
     \<longleftrightarrow> (\<exists>k. 1 \<le> k \<and> k < length a \<and> isl (read_c_ary (a ! k)))"
proof
  assume "\<exists>j. 0 < j \<and> j < int (length a) \<and> isl (read_c_ary (rb_ary_entry a j))"
  then obtain j where j: "0 < j" "j < int (length a)" "isl (read_c_ary (rb_ary_entry a j))"
    by blast
  then have "rb_ary_entry a j = a ! nat j"
    by (simp add: rb_ary_entry_nth)
  with j have "1 \<le> nat j \<and> nat j < length a \<and> isl (read_c_ary (a ! nat j))"
    by auto
  then show "\<exists>k. 1 \<le> k \<and> k < length a \<and> isl (read_c_ary (a ! k))" ..
next
  assume "\<exists>k. 1 \<le> k \<and> k < length a \<and> isl (read_c_ary (a ! k))"
  then obtain k where k: "1 \<le> k" "k < length a" "isl (read_c_ary (a ! k))"
    by blast
  then have "rb_ary_entry a (int k) = a ! k"
    by (simp add: rb_ary_entry_nth)
  with k have "0 < int k \<and> int k < int (length a) \<and> isl (read_c_ary (rb_ary_entry a (int k)))"
    by auto
  then show "\<exists>j. 0 < j \<and> j < int (length a) \<and> isl (read_c_ary (rb_ary_entry a j))" ..
qed

lemma evaluate_derivative_tail:
  assumes "length a = length b"
    and "\<forall>k. 1 \<le> k \<and> k < length a \<longrightarrow> a ! k = b ! k"
  shows "chebyshev_evaluate_derivative (T_ARRAY a) rb_t rb_radius
           = chebyshev_evaluate_derivative (T_ARRAY b) rb_t rb_radius"
proof -
  have loop: "chebyshev_evaluate_derivative_loop a t2 k s
      = chebyshev_evaluate_derivative_loop b t2 k s" for t2 k s
    by (rule evaluate_derivative_loop_cong) (simp add: rb_ary_entry_tail [OF assms])
  have len: "RARRAY_LEN a = RARRAY_LEN b"
    using assms(1) by (simp add: RARRAY_LEN_def)
  show ?thesis
    unfolding chebyshev_evaluate_derivative_def Check_Type_T_ARRAY.simps sum.case loop len ..
qed

text \<open>
  Claim C9. For a record of \<open>n \<ge> 2\<close> elements \<^verbatim>\<open>evaluate_derivative\<close> never reads element 0:
  two records of the same length that agree at every index from 1 to \<open>n - 1\<close> give equal
  results, whatever stands at index 0, and the call raises only when \<open>t\<close> or \<open>radius\<close> is
  not numeric or an element at an index \<open>k \<ge> 1\<close> is malformed.
\<close>

theorem evaluate_derivative_ignores_index_0:
  assumes "length a = length b"
    and "2 \<le> length a"
    and "\<forall>k. 1 \<le> k \<and> k < length a \<longrightarrow> a ! k = b ! k"
  shows "chebyshev_evaluate_derivative (T_ARRAY a) rb_t rb_radius
           = chebyshev_evaluate_derivative (T_ARRAY b) rb_t rb_radius
       \<and> (isl (chebyshev_evaluate_derivative (T_ARRAY a) rb_t rb_radius)
            \<longleftrightarrow> isl (NUM2DBL rb_t) \<or> isl (NUM2DBL rb_radius)
                 \<or> (\<exists>k. 1 \<le> k \<and> k < length a \<and> isl (read_c_ary (a ! k))))"
  using evaluate_derivative_tail [OF assms(1,3)] evaluate_derivative_isl [of a rb_t rb_radius]
  unfolding index_int_nat by blast

theorem evaluate_derivative_ignores_index_0_witness:
  "length [Qnil, vec 1 0 0] = length [T_STRING ''junk'', vec 1 0 0]
   \<and> 2 \<le> length [Qnil, vec 1 0 0]
   \<and> [Qnil, vec 1 0 0] ! 1 = [T_STRING ''junk'', vec 1 0 0] ! 1
   \<and> chebyshev_evaluate_derivative (T_ARRAY [Qnil, vec 1 0 0]) (T_FIXNUM 0) (T_FIXNUM 1)
       = Inr (T_ARRAY [T_FLOAT (Finite 86400), T_FLOAT (Finite 0), T_FLOAT (Finite 0)])
   \<and> chebyshev_evaluate_derivative (T_ARRAY [T_STRING ''junk'', vec 1 0 0])
        (T_FIXNUM 0) (T_FIXNUM 1)
       = Inr (T_ARRAY [T_FLOAT (Finite 86400), T_FLOAT (Finite 0), T_FLOAT (Finite 0)])"
proof -
  have len: "length [Qnil, vec 1 0 0] = length [T_STRING ''junk'', vec 1 0 0]" by simp
  have n: "2 \<le> length [Qnil, vec 1 0 0]" by simp
  have same: "\<forall>k. 1 \<le> k \<and> k < length [Qnil, vec 1 0 0]
      \<longrightarrow> [Qnil, vec 1 0 0] ! k = [T_STRING ''junk'', vec 1 0 0] ! k"
    by (auto simp: less_Suc_eq)
  have val: "chebyshev_evaluate_derivative (T_ARRAY [Qnil, vec 1 0 0]) (T_FIXNUM 0) (T_FIXNUM 1)
       = Inr (T_ARRAY [T_FLOAT (Finite 86400), T_FLOAT (Finite 0), T_FLOAT (Finite 0)])"
    by (simp add: chebyshev_evaluate_derivative_def chebyshev_evaluate_derivative_loop.simps
          RARRAY_LEN_def rb_ary_entry_def read_c_ary_def vec_def SECONDS_PER_DAY_def
          rb_ary_new_from_args_def DBL2NUM_def Let_def fp_eval)
  show ?thesis
    using evaluate_derivative_ignores_index_0 [OF len n same, of "T_FIXNUM 0" "T_FIXNUM 1"] val
    by simp
qed

text \<open>
  Claim C4, as amended. For every coefficients argument, every \<open>t\<close> and every numeric
  \<open>radius\<close>, \<^verbatim>\<open>evaluate\<close> raises exactly when \<^verbatim>\<open>evaluate_derivative\<close> raises or element 0 of
  the record is missing or malformed. So whatever \<^verbatim>\<open>evaluate_derivative\<close> rejects,
  \<^verbatim>\<open>evaluate\<close> rejects too, but not the other way round: \<^verbatim>\<open>evaluate_derivative\<close> never
  validates element 0.
\<close>

theorem evaluate_rejects_what_derivative_rejects:
  assumes "NUM2DBL rb_radius = Inr radius"
  shows "isl (chebyshev_evaluate rb_coeffs rb_t)
           \<longleftrightarrow> isl (chebyshev_evaluate_derivative rb_coeffs rb_t rb_radius)
                \<or> (case rb_coeffs of
                      T_ARRAY coeffs \<Rightarrow> isl (read_c_ary (rb_ary_entry coeffs 0))
                    | _ \<Rightarrow> False)"
proof (cases rb_coeffs)
  case (T_ARRAY coeffs)
  show ?thesis
    unfolding T_ARRAY evaluate_isl evaluate_derivative_isl
    using assms by auto
qed (simp_all add: chebyshev_evaluate_def chebyshev_evaluate_derivative_def)

theorem evaluate_rejects_what_derivative_rejects_witness:
  "NUM2DBL (T_FIXNUM 1) = Inr (Finite 1)
   \<and> isl (chebyshev_evaluate (T_ARRAY [vec 1 2 3, Qnil, vec 4 5 6]) (T_FIXNUM 0))
   \<and> isl (chebyshev_evaluate_derivative (T_ARRAY [vec 1 2 3, Qnil, vec 4 5 6])
            (T_FIXNUM 0) (T_FIXNUM 1))"
proof -
  have r: "NUM2DBL (T_FIXNUM 1) = Inr (Finite 1)" by (simp add: fp_eval)
  have d: "isl (chebyshev_evaluate_derivative (T_ARRAY [vec 1 2 3, Qnil, vec 4 5 6])
            (T_FIXNUM 0) (T_FIXNUM 1))"
    by (simp add: chebyshev_evaluate_derivative_def chebyshev_evaluate_derivative_loop.simps
          RARRAY_LEN_def rb_ary_entry_def read_c_ary_def vec_def Let_def)
  show ?thesis
    using evaluate_rejects_what_derivative_rejects
            [OF r, of "T_ARRAY [vec 1 2 3, Qnil, vec 4 5 6]" "T_FIXNUM 0"] d r
    by simp
qed

text \<open>
  The claim as written (the two operations reject the same records) fails on
  \<open>[nil, [1, 2, 3]]\<close>: \<^verbatim>\<open>evaluate\<close> raises TypeError, \<^verbatim>\<open>evaluate_derivative\<close> returns a
  velocity.
\<close>

theorem derivative_accepts_malformed_index_0_counterexample:
  "chebyshev_evaluate (T_ARRAY [Qnil, vec 1 2 3]) (T_FLOAT (Finite 0)) = Inl TypeError
   \<and> chebyshev_evaluate_derivative (T_ARRAY [Qnil, vec 1 2 3])
        (T_FLOAT (Finite 0)) (T_FLOAT (Finite 1))
       = Inr (T_ARRAY [T_FLOAT (Finite 86400), T_FLOAT (Finite 172800),
                       T_FLOAT (Finite 259200)])"
  by (simp add: chebyshev_evaluate_def chebyshev_evaluate_loop.simps
        chebyshev_evaluate_derivative_def chebyshev_evaluate_derivative_loop.simps
        RARRAY_LEN_def rb_ary_entry_def read_c_ary_def vec_def SECONDS_PER_DAY_def
        rb_ary_new_from_args_def DBL2NUM_def Let_def fp_eval)

lemma read_c_ary_few_numeric:
  assumes "numeric_components v < 3"
  shows "isl (read_c_ary v)"
proof (cases v)
  case (T_ARRAY ys)
  show ?thesis
  proof (cases ys)
    case Nil
    with T_ARRAY show ?thesis
      by (simp add: read_c_ary_def rb_ary_entry_def RARRAY_LEN_def)
  next
    case ys1: (Cons a ys1)
    show ?thesis
    proof (cases ys1)
      case Nil
      with T_ARRAY ys1 show ?thesis
        by (simp add: read_c_ary_def rb_ary_entry_def RARRAY_LEN_def split: sum.splits)
    next
      case ys2: (Cons b ys2)
      show ?thesis
      proof (cases ys2)
        case Nil
        with T_ARRAY ys1 ys2 show ?thesis
          by (simp add: read_c_ary_def rb_ary_entry_def RARRAY_LEN_def split: sum.splits)
      next
        case (Cons c ys3)
        have "isl (NUM2DBL a) \<or> isl (NUM2DBL b) \<or> isl (NUM2DBL c)"
          using assms T_ARRAY ys1 ys2 Cons
          by (auto simp: numeric_components_def split: if_splits)
        with T_ARRAY ys1 ys2 Cons show ?thesis
          by (auto simp: read_c_ary_def rb_ary_entry_def RARRAY_LEN_def split: sum.splits)
      qed
    qed
  qed
qed (simp_all add: read_c_ary_def)

text \<open>
  Claim C5, as amended. A record with an inner element of fewer than 3 numeric components
  is rejected by \<^verbatim>\<open>evaluate\<close> with a TypeError, wherever the element stands, and by
  \<^verbatim>\<open>evaluate_derivative\<close> when the element stands at an index \<open>k \<ge> 1\<close>; no result is
  computed from a truncated or padded element.
\<close>

theorem short_inner_element_rejected:
  assumes "k < length coeffs"
    and "numeric_components (coeffs ! k) < 3"
  shows "chebyshev_evaluate (T_ARRAY coeffs) rb_t = Inl TypeError
       \<and> (1 \<le> k \<longrightarrow>
            chebyshev_evaluate_derivative (T_ARRAY coeffs) rb_t rb_radius = Inl TypeError)"
proof -
  have bad: "isl (read_c_ary (coeffs ! k))"
    using assms(2) by (rule read_c_ary_few_numeric)
  have entry: "rb_ary_entry coeffs (int k) = coeffs ! k"
    using assms(1) by (simp add: rb_ary_entry_nth)
  have "isl (chebyshev_evaluate (T_ARRAY coeffs) rb_t)"
  proof (cases "k = 0")
    case True
    with bad entry show ?thesis
      unfolding evaluate_isl by simp
  next
    case False
    with bad entry assms(1)
    have "0 < int k \<and> int k < int (length coeffs)
        \<and> isl (read_c_ary (rb_ary_entry coeffs (int k)))"
      by simp
    then have "\<exists>j. 0 < j \<and> j < int (length coeffs) \<and> isl (read_c_ary (rb_ary_entry coeffs j))"
      ..
    then show ?thesis
      unfolding evaluate_isl by simp
  qed
  moreover have "isl (chebyshev_evaluate_derivative (T_ARRAY coeffs) rb_t rb_radius)"
    if "1 \<le> k"
  proof -
    from that bad entry assms(1)
    have "0 < int k \<and> int k < int (length coeffs)
        \<and> isl (read_c_ary (rb_ary_entry coeffs (int k)))"
      by simp
    then have "\<exists>j. 0 < j \<and> j < int (length coeffs) \<and> isl (read_c_ary (rb_ary_entry coeffs j))"
      ..
    then show ?thesis
      unfolding evaluate_derivative_isl by simp
  qed
  ultimately show ?thesis
    by (simp add: sum_isl_TypeError)
qed

theorem short_inner_element_rejected_witness:
  "1 < length [vec 1 2 3, T_ARRAY [T_FIXNUM 1, T_FIXNUM 2]]
   \<and> numeric_components ([vec 1 2 3, T_ARRAY [T_FIXNUM 1, T_FIXNUM 2]] ! 1) < 3
   \<and> (1 :: nat) \<le> 1
   \<and> chebyshev_evaluate (T_ARRAY [vec 1 2 3, T_ARRAY [T_FIXNUM 1, T_FIXNUM 2]]) (T_FIXNUM 0)
       = Inl TypeError
   \<and> chebyshev_evaluate_derivative (T_ARRAY [vec 1 2 3, T_ARRAY [T_FIXNUM 1, T_FIXNUM 2]])
        (T_FIXNUM 0) (T_FIXNUM 1)
       = Inl TypeError"
proof -
  have k: "1 < length [vec 1 2 3, T_ARRAY [T_FIXNUM 1, T_FIXNUM 2]]" by simp
  have few: "numeric_components ([vec 1 2 3, T_ARRAY [T_FIXNUM 1, T_FIXNUM 2]] ! 1) < 3"
    by (simp add: numeric_components_def)
  show ?thesis
    using short_inner_element_rejected [OF k few, of "T_FIXNUM 0" "T_FIXNUM 1"] k few
    by simp
qed

text \<open>
  The claim as written (\<^verbatim>\<open>evaluate_derivative\<close> rejects likewise) fails when the short
  element stands at index 0: \<open>[[1, 2]]\<close> gives \<open>(0, 0, 0)\<close> and \<open>[[1, 2], [1, 2, 3]]\<close> gives a
  velocity, both without an error.
\<close>

theorem derivative_accepts_short_element_counterexample:
  "numeric_components (T_ARRAY [T_FIXNUM 1, T_FIXNUM 2]) < 3
   \<and> chebyshev_evaluate_derivative (T_ARRAY [T_ARRAY [T_FIXNUM 1, T_FIXNUM 2]])
        (T_FLOAT (Finite 0)) (T_FLOAT (Finite 1))
       = Inr (T_ARRAY [T_FLOAT (Finite 0), T_FLOAT (Finite 0), T_FLOAT (Finite 0)])
   \<and> chebyshev_evaluate_derivative (T_ARRAY [T_ARRAY [T_FIXNUM 1, T_FIXNUM 2], vec 1 2 3])
        (T_FLOAT (Finite 0)) (T_FLOAT (Finite 1))
       = Inr (T_ARRAY [T_FLOAT (Finite 86400), T_FLOAT (Finite 172800),
                       T_FLOAT (Finite 259200)])"
  by (simp add: numeric_components_def
        chebyshev_evaluate_derivative_def chebyshev_evaluate_derivative_loop.simps
        RARRAY_LEN_def rb_ary_entry_def read_c_ary_def vec_def SECONDS_PER_DAY_def
        rb_ary_new_from_args_def DBL2NUM_def Let_def fp_eval)

text \<open>
  Claim C6, as amended. \<^verbatim>\<open>evaluate\<close> rejects the empty record: with \<open>n = 0\<close> the loop is
  skipped, \<^verbatim>\<open>rb_ary_entry(rb_coeffs, 0)\<close> is nil, and \<^verbatim>\<open>Check_Type\<close> raises TypeError,
  for every \<open>t\<close>.
\<close>

theorem evaluate_empty_record_rejected:
  "chebyshev_evaluate (T_ARRAY []) rb_t = Inl TypeError"
  by (cases "NUM2DBL rb_t")
     (simp_all add: chebyshev_evaluate_def chebyshev_evaluate_loop.simps RARRAY_LEN_def
        rb_ary_entry_def read_c_ary_def rb_error_TypeError)

theorem evaluate_empty_record_rejected_witness:
  "chebyshev_evaluate (T_ARRAY []) (T_FLOAT (Finite (1 / 2))) = Inl TypeError
   \<and> chebyshev_evaluate (T_ARRAY []) Qnil = Inl TypeError"
  using evaluate_empty_record_rejected [of "T_FLOAT (Finite (1 / 2))"]
    evaluate_empty_record_rejected [of Qnil]
  by simp

text \<open>The claim as written (the empty record is accepted) fails at \<open>t = 0\<close>.\<close>

theorem evaluate_empty_record_counterexample:
  "chebyshev_evaluate (T_ARRAY []) (T_FLOAT (Finite 0)) = Inl TypeError"
  by (simp add: chebyshev_evaluate_def chebyshev_evaluate_loop.simps RARRAY_LEN_def
        rb_ary_entry_def read_c_ary_def)

text \<open>
  Claim C3. For a record of fewer than two elements, whatever they are, every \<open>t\<close> and every
  \<open>radius\<close> (zero included), \<^verbatim>\<open>evaluate_derivative\<close> returns \<open>(0, 0, 0)\<close>: it returns before
  the loop and before the division by \<open>2 radius\<close>.
\<close>

theorem evaluate_derivative_short_record:
  assumes "length coeffs < 2"
    and "NUM2DBL rb_t = Inr t"
    and "NUM2DBL rb_radius = Inr radius"
  shows "chebyshev_evaluate_derivative (T_ARRAY coeffs) rb_t rb_radius
           = Inr (T_ARRAY [T_FLOAT (Finite 0), T_FLOAT (Finite 0), T_FLOAT (Finite 0)])"
  using assms
  by (simp add: chebyshev_evaluate_derivative_def RARRAY_LEN_def rb_ary_new_from_args_def
        DBL2NUM_def)

theorem evaluate_derivative_short_record_witness:
  "length [vec 5 6 7] < 2
   \<and> NUM2DBL (T_FLOAT (Finite (1 / 2))) = Inr (Finite (1 / 2))
   \<and> NUM2DBL (T_FLOAT (Finite 0)) = Inr (Finite 0)
   \<and> chebyshev_evaluate_derivative (T_ARRAY [vec 5 6 7]) (T_FLOAT (Finite (1 / 2)))
        (T_FLOAT (Finite 0))
       = Inr (T_ARRAY [T_FLOAT (Finite 0), T_FLOAT (Finite 0), T_FLOAT (Finite 0)])"
proof -
  have n: "length [vec 5 6 7] < 2" by simp
  have t: "NUM2DBL (T_FLOAT (Finite (1 / 2))) = Inr (Finite (1 / 2))" by simp
  have r: "NUM2DBL (T_FLOAT (Finite 0)) = Inr (Finite 0)" by simp
  show ?thesis
    using evaluate_derivative_short_record [OF n t r] by simp
qed

section \<open>The recurrence in exact arithmetic\<close>

lemma clenshaw_closed:
  "(case clenshaw c (2 * t) k (b1, b2) of (p, q) \<Rightarrow> t * p - q + c 0)
     = (\<Sum>j\<le>k. c j * cheb_T j t) + b1 * cheb_T (Suc k) t - b2 * cheb_T k t"
proof (induction k arbitrary: b1 b2)
  case 0
  show ?case by simp
next
  case (Suc k)
  have "(case clenshaw c (2 * t) (Suc k) (b1, b2) of (p, q) \<Rightarrow> t * p - q + c 0)
      = (case clenshaw c (2 * t) k (2 * t * b1 - b2 + c (Suc k), b1) of
           (p, q) \<Rightarrow> t * p - q + c 0)"
    by simp
  also have "\<dots> = (\<Sum>j\<le>k. c j * cheb_T j t)
      + (2 * t * b1 - b2 + c (Suc k)) * cheb_T (Suc k) t - b1 * cheb_T k t"
    by (rule Suc.IH)
  also have "\<dots> = (\<Sum>j\<le>Suc k. c j * cheb_T j t)
      + b1 * cheb_T (Suc (Suc k)) t - b2 * cheb_T (Suc k) t"
    by (simp add: algebra_simps)
  finally show ?case .
qed

lemma cheb_series_nth:
  "cheb_series (map f cs) t = (\<Sum>k<length cs. f (cs ! k) * cheb_T k t)"
  by (simp add: cheb_series_def)

lemma clenshaw_series:
  assumes "xs \<noteq> []"
  shows "(case clenshaw (\<lambda>j. xs ! j) (2 * t) (length xs - 1) (0, 0) of
            (p, q) \<Rightarrow> t * p - q + xs ! 0)
         = cheb_series xs t"
proof -
  from assms obtain m where m: "length xs = Suc m"
    by (cases xs) auto
  show ?thesis
    unfolding cheb_series_def m
    by (simp add: clenshaw_closed [where c = "\<lambda>j. xs ! j"] lessThan_Suc_atMost)
qed

lemma cheb_series_scale:
  "cheb_series (map (\<lambda>v. c * f v) cs) t = c * cheb_series (map f cs) t"
  by (simp add: cheb_series_nth sum_distrib_left mult.assoc)

lemma cheb_T_deriv: "((\<lambda>s. cheb_T k s) has_real_derivative cheb_dT k t) (at t)"
proof (induction k t rule: cheb_T.induct)
  case (1 t)
  show ?case by simp
next
  case (2 t)
  show ?case by simp
next
  case (3 k t)
  show ?case
    by (simp del: cheb_dT.simps)
       (auto intro!: derivative_eq_intros "3.IH" simp: algebra_simps)
qed

lemma cheb_series_has_deriv:
  "((\<lambda>s. cheb_series cs s) has_real_derivative cheb_series_deriv cs t) (at t)"
  unfolding cheb_series_def cheb_series_deriv_def
  by (auto intro!: derivative_eq_intros cheb_T_deriv sum.cong simp: mult.commute)

lemma cheb_T_V: "cheb_T (Suc k) t = t * cheb_V (Suc k) t - cheb_V k t"
proof (induction k t rule: cheb_V.induct)
  case (1 t)
  show ?case by simp
next
  case (2 t)
  show ?case by (simp add: algebra_simps)
next
  case (3 k t)
  have "cheb_T (Suc (Suc (Suc k))) t
      = 2 * t * cheb_T (Suc (Suc k)) t - cheb_T (Suc k) t"
    by simp
  also have "\<dots> = 2 * t * (t * cheb_V (Suc (Suc k)) t - cheb_V (Suc k) t)
      - (t * cheb_V (Suc k) t - cheb_V k t)"
    by (simp only: "3.IH")
  also have "\<dots> = t * cheb_V (Suc (Suc (Suc k))) t - cheb_V (Suc (Suc k)) t"
    by (simp add: algebra_simps)
  finally show ?case .
qed

lemma cheb_dT_V: "cheb_dT k t = real k * cheb_V k t"
proof (induction k t rule: cheb_V.induct)
  case (1 t)
  show ?case by simp
next
  case (2 t)
  show ?case by simp
next
  case (3 k t)
  have "cheb_dT (Suc (Suc k)) t
      = 2 * cheb_T (Suc k) t + 2 * t * cheb_dT (Suc k) t - cheb_dT k t"
    by simp
  also have "\<dots> = 2 * (t * cheb_V (Suc k) t - cheb_V k t)
      + 2 * t * (real (Suc k) * cheb_V (Suc k) t) - real k * cheb_V k t"
    by (simp only: "3.IH" cheb_T_V)
  also have "\<dots> = real (Suc (Suc k)) * cheb_V (Suc (Suc k)) t"
    by (simp add: algebra_simps)
  finally show ?case .
qed

lemma clenshaw_fst_closed:
  "fst (clenshaw c (2 * t) k (b1, b2))
     = (\<Sum>j\<le>k. c j * cheb_V j t) + b1 * cheb_V (Suc k) t - b2 * cheb_V k t"
proof (induction k arbitrary: b1 b2)
  case 0
  show ?case by simp
next
  case (Suc k)
  have "fst (clenshaw c (2 * t) (Suc k) (b1, b2))
      = fst (clenshaw c (2 * t) k (2 * t * b1 - b2 + c (Suc k), b1))"
    by simp
  also have "\<dots> = (\<Sum>j\<le>k. c j * cheb_V j t)
      + (2 * t * b1 - b2 + c (Suc k)) * cheb_V (Suc k) t - b1 * cheb_V k t"
    by (rule Suc.IH)
  also have "\<dots> = (\<Sum>j\<le>Suc k. c j * cheb_V j t)
      + b1 * cheb_V (Suc (Suc k)) t - b2 * cheb_V (Suc k) t"
    by (simp add: algebra_simps)
  finally show ?case .
qed

lemma clenshaw_deriv_series:
  assumes "xs \<noteq> []"
  shows "fst (clenshaw (\<lambda>j. 2 * real j * xs ! j) (2 * t) (length xs - 1) (0, 0))
         = 2 * cheb_series_deriv xs t"
proof -
  from assms obtain m where m: "length xs = Suc m"
    by (cases xs) auto
  have "fst (clenshaw (\<lambda>j. 2 * real j * xs ! j) (2 * t) m (0, 0))
      = (\<Sum>j\<le>m. 2 * real j * xs ! j * cheb_V j t)"
    by (simp add: clenshaw_fst_closed)
  also have "\<dots> = (\<Sum>j\<le>m. 2 * (xs ! j * cheb_dT j t))"
    by (rule sum.cong) (simp_all add: cheb_dT_V)
  also have "\<dots> = 2 * (\<Sum>j<length xs. xs ! j * cheb_dT j t)"
    by (simp add: m lessThan_Suc_atMost sum_distrib_left)
  finally show ?thesis
    by (simp add: m cheb_series_deriv_def)
qed

section \<open>Reading well-formed records\<close>

lemma real_of_value_NUM2DBL:
  assumes "real_of_value v = Some x"
  shows "\<exists>d. NUM2DBL v = Inr d \<and> is_finite d \<and> val d = x \<and> is_binary64 x"
proof (cases v)
  case (T_FLOAT d)
  with assms show ?thesis
    by (cases d) (auto split: if_splits)
next
  case (T_FIXNUM i)
  with assms show ?thesis
    by (auto simp: double_of_int_exact split: if_splits)
qed (use assms in simp_all)

lemma vec3_of_SomeD:
  assumes "vec3_of v = Some (x, y, z)"
  shows "\<exists>a b c. v = T_ARRAY [a, b, c] \<and> real_of_value a = Some x
           \<and> real_of_value b = Some y \<and> real_of_value c = Some z"
  using assms
  by (induction v rule: vec3_of.induct) (auto split: option.splits)

lemma read_c_ary_vec3:
  assumes "vec3_of v = Some (x, y, z)"
  shows "\<exists>c0 c1 c2. read_c_ary v = Inr (c0, c1, c2)
           \<and> is_finite c0 \<and> is_finite c1 \<and> is_finite c2
           \<and> val c0 = x \<and> val c1 = y \<and> val c2 = z
           \<and> is_binary64 x \<and> is_binary64 y \<and> is_binary64 z"
proof -
  from vec3_of_SomeD [OF assms] obtain a b c where
    v: "v = T_ARRAY [a, b, c]" and "real_of_value a = Some x"
    "real_of_value b = Some y" "real_of_value c = Some z" by blast
  then obtain c0 c1 c2 where
    "NUM2DBL a = Inr c0" "is_finite c0" "val c0 = x" "is_binary64 x"
    "NUM2DBL b = Inr c1" "is_finite c1" "val c1 = y" "is_binary64 y"
    "NUM2DBL c = Inr c2" "is_finite c2" "val c2 = z" "is_binary64 z"
    using real_of_value_NUM2DBL by meson
  then show ?thesis
    by (simp add: v read_c_ary_def rb_ary_entry_def RARRAY_LEN_def)
qed

lemma read_c_ary_wf:
  assumes wf: "map vec3_of coeffs = map Some cs" and j: "j < length cs"
  shows "\<exists>c0 c1 c2. read_c_ary (rb_ary_entry coeffs (int j)) = Inr (c0, c1, c2)
           \<and> is_finite c0 \<and> is_finite c1 \<and> is_finite c2
           \<and> val c0 = xs_of cs ! j \<and> val c1 = ys_of cs ! j \<and> val c2 = zs_of cs ! j
           \<and> is_binary64 (xs_of cs ! j) \<and> is_binary64 (ys_of cs ! j)
           \<and> is_binary64 (zs_of cs ! j)"
proof -
  have len: "length coeffs = length cs"
    using wf by (rule map_eq_imp_length_eq)
  have "map vec3_of coeffs ! j = map Some cs ! j"
    using wf by simp
  then have "vec3_of (coeffs ! j) = Some (fst (cs ! j), fst (snd (cs ! j)), snd (snd (cs ! j)))"
    using j len by simp
  from read_c_ary_vec3 [OF this] have
    "\<exists>c0 c1 c2. read_c_ary (coeffs ! j) = Inr (c0, c1, c2)
           \<and> is_finite c0 \<and> is_finite c1 \<and> is_finite c2
           \<and> val c0 = xs_of cs ! j \<and> val c1 = ys_of cs ! j \<and> val c2 = zs_of cs ! j
           \<and> is_binary64 (xs_of cs ! j) \<and> is_binary64 (ys_of cs ! j)
           \<and> is_binary64 (zs_of cs ! j)"
    using j by (simp add: xs_of_def ys_of_def zs_of_def)
  moreover have "rb_ary_entry coeffs (int j) = coeffs ! j"
    using j len by (simp add: rb_ary_entry_nth)
  ultimately show ?thesis by simp
qed

section \<open>The loops when no operation rounds\<close>

lemma evaluate_loop_exact:
  assumes rd: "\<forall>j. 0 < j \<and> j \<le> k \<longrightarrow>
      (\<exists>c0 c1 c2. read_c_ary (rb_ary_entry coeffs (int j)) = Inr (c0, c1, c2)
         \<and> is_finite c0 \<and> is_finite c1 \<and> is_finite c2
         \<and> val c0 = cx j \<and> val c1 = cy j \<and> val c2 = cz j)"
    and t2: "is_finite t2"
    and fin: "b_finite s"
    and ex: "clenshaw_exact cx (val t2) k (val (b1x s), val (b2x s))"
    and ey: "clenshaw_exact cy (val t2) k (val (b1y s), val (b2y s))"
    and ez: "clenshaw_exact cz (val t2) k (val (b1z s), val (b2z s))"
  shows "\<exists>s'. chebyshev_evaluate_loop coeffs t2 (int k) s = Inr s' \<and> b_finite s'
           \<and> (val (b1x s'), val (b2x s')) = clenshaw cx (val t2) k (val (b1x s), val (b2x s))
           \<and> (val (b1y s'), val (b2y s')) = clenshaw cy (val t2) k (val (b1y s), val (b2y s))
           \<and> (val (b1z s'), val (b2z s')) = clenshaw cz (val t2) k (val (b1z s), val (b2z s))"
  using rd fin ex ey ez
proof (induction k arbitrary: s)
  case 0
  then show ?case
    by (subst chebyshev_evaluate_loop.simps) simp
next
  case (Suc k)
  from Suc.prems(1) obtain c0 c1 c2 where
    rd1: "read_c_ary (rb_ary_entry coeffs (int (Suc k))) = Inr (c0, c1, c2)"
    and c: "is_finite c0" "is_finite c1" "is_finite c2"
    and cv: "val c0 = cx (Suc k)" "val c1 = cy (Suc k)" "val c2 = cz (Suc k)"
    by (metis zero_less_Suc order_refl)
  have rest: "\<forall>j. 0 < j \<and> j \<le> k \<longrightarrow>
      (\<exists>c0 c1 c2. read_c_ary (rb_ary_entry coeffs (int j)) = Inr (c0, c1, c2)
         \<and> is_finite c0 \<and> is_finite c1 \<and> is_finite c2
         \<and> val c0 = cx j \<and> val c1 = cy j \<and> val c2 = cz j)"
    using Suc.prems(1) by simp
  define s1 where "s1 = \<lparr>b1x = t2 * b1x s - b2x s + c0,
                b1y = t2 * b1y s - b2y s + c1,
                b1z = t2 * b1z s - b2z s + c2,
                b2x = b1x s, b2y = b1y s, b2z = b1z s\<rparr>"
  have f: "is_finite (b1x s)" "is_finite (b1y s)" "is_finite (b1z s)"
    "is_finite (b2x s)" "is_finite (b2y s)" "is_finite (b2z s)"
    using Suc.prems(2) by (simp_all add: b_finite_def)
  have sx: "is_finite (b1x s1)
      \<and> val (b1x s1) = val t2 * val (b1x s) - val (b2x s) + cx (Suc k)"
    using step_exact [OF t2 f(1) f(4) c(1)] Suc.prems(3) by (simp add: s1_def cv)
  have sy: "is_finite (b1y s1)
      \<and> val (b1y s1) = val t2 * val (b1y s) - val (b2y s) + cy (Suc k)"
    using step_exact [OF t2 f(2) f(5) c(2)] Suc.prems(4) by (simp add: s1_def cv)
  have sz: "is_finite (b1z s1)
      \<and> val (b1z s1) = val t2 * val (b1z s) - val (b2z s) + cz (Suc k)"
    using step_exact [OF t2 f(3) f(6) c(3)] Suc.prems(5) by (simp add: s1_def cv)
  have b2s: "b2x s1 = b1x s" "b2y s1 = b1y s" "b2z s1 = b1z s"
    by (simp_all add: s1_def)
  have fin1: "b_finite s1"
    using sx sy sz f by (simp add: b_finite_def b2s)
  have ex1: "clenshaw_exact cx (val t2) k (val (b1x s1), val (b2x s1))"
    "clenshaw_exact cy (val t2) k (val (b1y s1), val (b2y s1))"
    "clenshaw_exact cz (val t2) k (val (b1z s1), val (b2z s1))"
    using Suc.prems(3,4,5) sx sy sz by (simp_all add: b2s)
  from Suc.IH [OF rest fin1 ex1] obtain s' where
    s': "chebyshev_evaluate_loop coeffs t2 (int k) s1 = Inr s'" "b_finite s'"
    "(val (b1x s'), val (b2x s')) = clenshaw cx (val t2) k (val (b1x s1), val (b2x s1))"
    "(val (b1y s'), val (b2y s')) = clenshaw cy (val t2) k (val (b1y s1), val (b2y s1))"
    "(val (b1z s'), val (b2z s')) = clenshaw cz (val t2) k (val (b1z s1), val (b2z s1))"
    by blast
  have step: "int (Suc k) - 1 = int k" by simp
  have "chebyshev_evaluate_loop coeffs t2 (int (Suc k)) s
      = chebyshev_evaluate_loop coeffs t2 (int k) s1"
    by (subst chebyshev_evaluate_loop.simps)
       (simp only: rd1 step s1_def sum.case prod.case of_nat_0_less_iff zero_less_Suc if_True)
  with s' sx sy sz show ?case
    by (simp add: b2s)
qed

lemma k2_term_exact:
  assumes "is_finite c"
    and "is_binary64 (real (Suc k))"
    and "is_binary64 (2 * real (Suc k))"
    and "is_binary64 (2 * real (Suc k) * val c)"
  shows "is_finite (Finite 2 * double_of_int (int (Suc k)) * c)
       \<and> val (Finite 2 * double_of_int (int (Suc k)) * c) = 2 * real (Suc k) * val c"
proof -
  have "double_of_int (int (Suc k)) = Finite (real (Suc k))"
    using double_of_int_exact [of "int (Suc k)"] assms(2) by simp
  then have k2: "is_finite (Finite 2 * double_of_int (int (Suc k)))
      \<and> val (Finite 2 * double_of_int (int (Suc k))) = 2 * real (Suc k)"
    using times_exact [of "Finite 2" "Finite (real (Suc k))"] assms(3) by simp
  show ?thesis
    using times_exact [of "Finite 2 * double_of_int (int (Suc k))" c] k2 assms(1,4) by simp
qed

lemma evaluate_derivative_loop_exact:
  assumes rd: "\<forall>j. 0 < j \<and> j \<le> k \<longrightarrow>
      (\<exists>c0 c1 c2. read_c_ary (rb_ary_entry coeffs (int j)) = Inr (c0, c1, c2)
         \<and> is_finite c0 \<and> is_finite c1 \<and> is_finite c2
         \<and> val c0 = cx j \<and> val c1 = cy j \<and> val c2 = cz j)"
    and t2: "is_finite t2"
    and fin: "d_finite s"
    and kx: "k2_exact cx k" and ky: "k2_exact cy k" and kz: "k2_exact cz k"
    and ex: "clenshaw_exact (\<lambda>j. 2 * real j * cx j) (val t2) k (val (d1x s), val (d2x s))"
    and ey: "clenshaw_exact (\<lambda>j. 2 * real j * cy j) (val t2) k (val (d1y s), val (d2y s))"
    and ez: "clenshaw_exact (\<lambda>j. 2 * real j * cz j) (val t2) k (val (d1z s), val (d2z s))"
  shows "\<exists>s'. chebyshev_evaluate_derivative_loop coeffs t2 (int k) s = Inr s' \<and> d_finite s'
           \<and> (val (d1x s'), val (d2x s'))
               = clenshaw (\<lambda>j. 2 * real j * cx j) (val t2) k (val (d1x s), val (d2x s))
           \<and> (val (d1y s'), val (d2y s'))
               = clenshaw (\<lambda>j. 2 * real j * cy j) (val t2) k (val (d1y s), val (d2y s))
           \<and> (val (d1z s'), val (d2z s'))
               = clenshaw (\<lambda>j. 2 * real j * cz j) (val t2) k (val (d1z s), val (d2z s))"
  using rd fin kx ky kz ex ey ez
proof (induction k arbitrary: s)
  case 0
  then show ?case
    by (subst chebyshev_evaluate_derivative_loop.simps) simp
next
  case (Suc k)
  from Suc.prems(1) obtain c0 c1 c2 where
    rd1: "read_c_ary (rb_ary_entry coeffs (int (Suc k))) = Inr (c0, c1, c2)"
    and c: "is_finite c0" "is_finite c1" "is_finite c2"
    and cv: "val c0 = cx (Suc k)" "val c1 = cy (Suc k)" "val c2 = cz (Suc k)"
    by (metis zero_less_Suc order_refl)
  have rest: "\<forall>j. 0 < j \<and> j \<le> k \<longrightarrow>
      (\<exists>c0 c1 c2. read_c_ary (rb_ary_entry coeffs (int j)) = Inr (c0, c1, c2)
         \<and> is_finite c0 \<and> is_finite c1 \<and> is_finite c2
         \<and> val c0 = cx j \<and> val c1 = cy j \<and> val c2 = cz j)"
    using Suc.prems(1) by simp
  define k2 where "k2 = Finite 2 * double_of_int (int (Suc k))"
  define s1 where "s1 = \<lparr>d1x = t2 * d1x s - d2x s + k2 * c0,
                d1y = t2 * d1y s - d2y s + k2 * c1,
                d1z = t2 * d1z s - d2z s + k2 * c2,
                d2x = d1x s, d2y = d1y s, d2z = d1z s\<rparr>"
  have f: "is_finite (d1x s)" "is_finite (d1y s)" "is_finite (d1z s)"
    "is_finite (d2x s)" "is_finite (d2y s)" "is_finite (d2z s)"
    using Suc.prems(2) by (simp_all add: d_finite_def)
  have tx: "is_finite (k2 * c0) \<and> val (k2 * c0) = 2 * real (Suc k) * cx (Suc k)"
    using k2_term_exact [OF c(1), of k] Suc.prems(3) by (simp add: k2_def cv)
  have ty: "is_finite (k2 * c1) \<and> val (k2 * c1) = 2 * real (Suc k) * cy (Suc k)"
    using k2_term_exact [OF c(2), of k] Suc.prems(4) by (simp add: k2_def cv)
  have tz: "is_finite (k2 * c2) \<and> val (k2 * c2) = 2 * real (Suc k) * cz (Suc k)"
    using k2_term_exact [OF c(3), of k] Suc.prems(5) by (simp add: k2_def cv)
  have sx: "is_finite (d1x s1)
      \<and> val (d1x s1) = val t2 * val (d1x s) - val (d2x s) + 2 * real (Suc k) * cx (Suc k)"
    using step_exact [OF t2 f(1) f(4), of "k2 * c0"] tx Suc.prems(6) by (simp add: s1_def)
  have sy: "is_finite (d1y s1)
      \<and> val (d1y s1) = val t2 * val (d1y s) - val (d2y s) + 2 * real (Suc k) * cy (Suc k)"
    using step_exact [OF t2 f(2) f(5), of "k2 * c1"] ty Suc.prems(7) by (simp add: s1_def)
  have sz: "is_finite (d1z s1)
      \<and> val (d1z s1) = val t2 * val (d1z s) - val (d2z s) + 2 * real (Suc k) * cz (Suc k)"
    using step_exact [OF t2 f(3) f(6), of "k2 * c2"] tz Suc.prems(8) by (simp add: s1_def)
  have d2s: "d2x s1 = d1x s" "d2y s1 = d1y s" "d2z s1 = d1z s"
    by (simp_all add: s1_def)
  have fin1: "d_finite s1"
    using sx sy sz f by (simp add: d_finite_def d2s)
  have k1: "k2_exact cx k" "k2_exact cy k" "k2_exact cz k"
    using Suc.prems(3,4,5) by simp_all
  have ex1: "clenshaw_exact (\<lambda>j. 2 * real j * cx j) (val t2) k (val (d1x s1), val (d2x s1))"
    "clenshaw_exact (\<lambda>j. 2 * real j * cy j) (val t2) k (val (d1y s1), val (d2y s1))"
    "clenshaw_exact (\<lambda>j. 2 * real j * cz j) (val t2) k (val (d1z s1), val (d2z s1))"
    using Suc.prems(6,7,8) sx sy sz by (simp_all add: d2s)
  from Suc.IH [OF rest fin1 k1 ex1] obtain s' where
    s': "chebyshev_evaluate_derivative_loop coeffs t2 (int k) s1 = Inr s'" "d_finite s'"
    "(val (d1x s'), val (d2x s'))
       = clenshaw (\<lambda>j. 2 * real j * cx j) (val t2) k (val (d1x s1), val (d2x s1))"
    "(val (d1y s'), val (d2y s'))
       = clenshaw (\<lambda>j. 2 * real j * cy j) (val t2) k (val (d1y s1), val (d2y s1))"
    "(val (d1z s'), val (d2z s'))
       = clenshaw (\<lambda>j. 2 * real j * cz j) (val t2) k (val (d1z s1), val (d2z s1))"
    by blast
  have step: "int (Suc k) - 1 = int k" by simp
  have "chebyshev_evaluate_derivative_loop coeffs t2 (int (Suc k)) s
      = chebyshev_evaluate_derivative_loop coeffs t2 (int k) s1"
    by (subst chebyshev_evaluate_derivative_loop.simps)
       (simp only: rd1 step s1_def k2_def Let_def sum.case prod.case of_nat_0_less_iff
          zero_less_Suc if_True)
  with s' sx sy sz show ?case
    by (simp add: d2s)
qed

section \<open>The two functions when no operation rounds\<close>

lemma evaluate_exact_result:
  assumes wf: "map vec3_of coeffs = map Some cs"
    and ne: "cs \<noteq> []"
    and t: "NUM2DBL rb_t = Inr t" and ft: "is_finite t"
    and ex: "evaluate_exact (xs_of cs) (val t)"
    and ey: "evaluate_exact (ys_of cs) (val t)"
    and ez: "evaluate_exact (zs_of cs) (val t)"
  shows "\<exists>rx ry rz. chebyshev_evaluate (T_ARRAY coeffs) rb_t
             = Inr (T_ARRAY [T_FLOAT rx, T_FLOAT ry, T_FLOAT rz])
           \<and> is_finite rx \<and> is_finite ry \<and> is_finite rz
           \<and> val rx = cheb_series (xs_of cs) (val t)
           \<and> val ry = cheb_series (ys_of cs) (val t)
           \<and> val rz = cheb_series (zs_of cs) (val t)"
proof -
  from ne obtain m where m: "length cs = Suc m"
    by (cases cs) auto
  have len: "length coeffs = Suc m"
    using map_eq_imp_length_eq [OF wf] m by simp
  have lens: "length (xs_of cs) - 1 = m" "length (ys_of cs) - 1 = m" "length (zs_of cs) - 1 = m"
    "xs_of cs \<noteq> []" "ys_of cs \<noteq> []" "zs_of cs \<noteq> []"
    using m ne by (simp_all add: xs_of_def ys_of_def zs_of_def)
  have k: "RARRAY_LEN coeffs - 1 = int m"
    using len by (simp add: RARRAY_LEN_def)
  have ex': "is_binary64 (2 * val t)"
    "clenshaw_exact (\<lambda>j. xs_of cs ! j) (2 * val t) m (0, 0)"
    "case clenshaw (\<lambda>j. xs_of cs ! j) (2 * val t) m (0, 0) of
       (b1, b2) \<Rightarrow> is_binary64 (val t * b1) \<and> is_binary64 (val t * b1 - b2)
         \<and> is_binary64 (val t * b1 - b2 + xs_of cs ! 0)"
    using ex unfolding evaluate_exact_def lens by simp_all
  have ey': "clenshaw_exact (\<lambda>j. ys_of cs ! j) (2 * val t) m (0, 0)"
    "case clenshaw (\<lambda>j. ys_of cs ! j) (2 * val t) m (0, 0) of
       (b1, b2) \<Rightarrow> is_binary64 (val t * b1) \<and> is_binary64 (val t * b1 - b2)
         \<and> is_binary64 (val t * b1 - b2 + ys_of cs ! 0)"
    using ey unfolding evaluate_exact_def lens by simp_all
  have ez': "clenshaw_exact (\<lambda>j. zs_of cs ! j) (2 * val t) m (0, 0)"
    "case clenshaw (\<lambda>j. zs_of cs ! j) (2 * val t) m (0, 0) of
       (b1, b2) \<Rightarrow> is_binary64 (val t * b1) \<and> is_binary64 (val t * b1 - b2)
         \<and> is_binary64 (val t * b1 - b2 + zs_of cs ! 0)"
    using ez unfolding evaluate_exact_def lens by simp_all
  define t2 where "t2 = Finite 2 * t"
  have t2: "is_finite t2 \<and> val t2 = 2 * val t"
    using times_exact [of "Finite 2" t] ft ex'(1) by (simp add: t2_def)
  have rd: "\<forall>j. 0 < j \<and> j \<le> m \<longrightarrow>
      (\<exists>c0 c1 c2. read_c_ary (rb_ary_entry coeffs (int j)) = Inr (c0, c1, c2)
         \<and> is_finite c0 \<and> is_finite c1 \<and> is_finite c2
         \<and> val c0 = xs_of cs ! j \<and> val c1 = ys_of cs ! j \<and> val c2 = zs_of cs ! j)"
  proof (intro allI impI)
    fix j assume "0 < j \<and> j \<le> m"
    then have "j < length cs" using m by simp
    from read_c_ary_wf [OF wf this]
    show "\<exists>c0 c1 c2. read_c_ary (rb_ary_entry coeffs (int j)) = Inr (c0, c1, c2)
         \<and> is_finite c0 \<and> is_finite c1 \<and> is_finite c2
         \<and> val c0 = xs_of cs ! j \<and> val c1 = ys_of cs ! j \<and> val c2 = zs_of cs ! j"
      by blast
  qed
  from read_c_ary_wf [OF wf, of 0] m obtain c0 c1 c2 where
    rd0: "read_c_ary (rb_ary_entry coeffs 0) = Inr (c0, c1, c2)"
    and c: "is_finite c0" "is_finite c1" "is_finite c2"
    and cv: "val c0 = xs_of cs ! 0" "val c1 = ys_of cs ! 0" "val c2 = zs_of cs ! 0"
    by auto
  define s0 where "s0 = \<lparr>b1x = Finite 0, b1y = Finite 0, b1z = Finite 0,
                 b2x = Finite 0, b2y = Finite 0, b2z = Finite 0\<rparr>"
  have fin0: "b_finite s0" by (simp add: s0_def b_finite_def)
  have e0: "clenshaw_exact (\<lambda>j. xs_of cs ! j) (val t2) m (val (b1x s0), val (b2x s0))"
    "clenshaw_exact (\<lambda>j. ys_of cs ! j) (val t2) m (val (b1y s0), val (b2y s0))"
    "clenshaw_exact (\<lambda>j. zs_of cs ! j) (val t2) m (val (b1z s0), val (b2z s0))"
    using ex'(2) ey'(1) ez'(1) t2 by (simp_all add: s0_def)
  from evaluate_loop_exact [OF rd conjunct1 [OF t2] fin0 e0] obtain s where
    loop: "chebyshev_evaluate_loop coeffs t2 (int m) s0 = Inr s" and fs: "b_finite s"
    and vx: "(val (b1x s), val (b2x s)) = clenshaw (\<lambda>j. xs_of cs ! j) (2 * val t) m (0, 0)"
    and vy: "(val (b1y s), val (b2y s)) = clenshaw (\<lambda>j. ys_of cs ! j) (2 * val t) m (0, 0)"
    and vz: "(val (b1z s), val (b2z s)) = clenshaw (\<lambda>j. zs_of cs ! j) (2 * val t) m (0, 0)"
    using t2 by (auto simp: s0_def)
  have f: "is_finite (b1x s)" "is_finite (b1y s)" "is_finite (b1z s)"
    "is_finite (b2x s)" "is_finite (b2y s)" "is_finite (b2z s)"
    using fs by (simp_all add: b_finite_def)
  have rx: "is_finite (t * b1x s - b2x s + c0)
      \<and> val (t * b1x s - b2x s + c0) = cheb_series (xs_of cs) (val t)"
  proof -
    have "is_finite (t * b1x s - b2x s + c0)
      \<and> val (t * b1x s - b2x s + c0) = val t * val (b1x s) - val (b2x s) + val c0"
      using step_exact [OF ft f(1) f(4) c(1)] ex'(3) vx [symmetric]
      by (simp add: cv)
    then show ?thesis
      using clenshaw_series [OF lens(4), of "val t"] vx [symmetric]
      unfolding lens by (simp add: cv)
  qed
  have ry: "is_finite (t * b1y s - b2y s + c1)
      \<and> val (t * b1y s - b2y s + c1) = cheb_series (ys_of cs) (val t)"
  proof -
    have "is_finite (t * b1y s - b2y s + c1)
      \<and> val (t * b1y s - b2y s + c1) = val t * val (b1y s) - val (b2y s) + val c1"
      using step_exact [OF ft f(2) f(5) c(2)] ey'(2) vy [symmetric]
      by (simp add: cv)
    then show ?thesis
      using clenshaw_series [OF lens(5), of "val t"] vy [symmetric]
      unfolding lens by (simp add: cv)
  qed
  have rz: "is_finite (t * b1z s - b2z s + c2)
      \<and> val (t * b1z s - b2z s + c2) = cheb_series (zs_of cs) (val t)"
  proof -
    have "is_finite (t * b1z s - b2z s + c2)
      \<and> val (t * b1z s - b2z s + c2) = val t * val (b1z s) - val (b2z s) + val c2"
      using step_exact [OF ft f(3) f(6) c(3)] ez'(2) vz [symmetric]
      by (simp add: cv)
    then show ?thesis
      using clenshaw_series [OF lens(6), of "val t"] vz [symmetric]
      unfolding lens by (simp add: cv)
  qed
  have "chebyshev_evaluate (T_ARRAY coeffs) rb_t
      = Inr (T_ARRAY [T_FLOAT (t * b1x s - b2x s + c0), T_FLOAT (t * b1y s - b2y s + c1),
                      T_FLOAT (t * b1z s - b2z s + c2)])"
    unfolding chebyshev_evaluate_def
    by (simp only: Check_Type_T_ARRAY.simps sum.case t k Let_def loop [unfolded s0_def t2_def]
          rd0 prod.case rb_ary_new_from_args_def DBL2NUM_def)
  with rx ry rz show ?thesis by blast
qed

lemma evaluate_derivative_exact_result:
  assumes wf: "map vec3_of coeffs = map Some cs"
    and n: "2 \<le> length cs"
    and t: "NUM2DBL rb_t = Inr t" and ft: "is_finite t"
    and r: "NUM2DBL rb_radius = Inr r" and fr: "is_finite r" and r0: "val r \<noteq> 0"
    and ex: "evaluate_derivative_exact (xs_of cs) (val t) (val r)"
    and ey: "evaluate_derivative_exact (ys_of cs) (val t) (val r)"
    and ez: "evaluate_derivative_exact (zs_of cs) (val t) (val r)"
  shows "\<exists>s vx vy vz.
           chebyshev_evaluate_derivative_loop coeffs (Finite 2 * t) (RARRAY_LEN coeffs - 1)
             \<lparr>d1x = Finite 0, d1y = Finite 0, d1z = Finite 0,
              d2x = Finite 0, d2y = Finite 0, d2z = Finite 0\<rparr> = Inr s
           \<and> is_finite (d1x s) \<and> is_finite (d1y s) \<and> is_finite (d1z s)
           \<and> val (d1x s) = 2 * cheb_series_deriv (xs_of cs) (val t)
           \<and> val (d1y s) = 2 * cheb_series_deriv (ys_of cs) (val t)
           \<and> val (d1z s) = 2 * cheb_series_deriv (zs_of cs) (val t)
           \<and> chebyshev_evaluate_derivative (T_ARRAY coeffs) rb_t rb_radius
               = Inr (T_ARRAY [T_FLOAT vx, T_FLOAT vy, T_FLOAT vz])
           \<and> is_finite vx \<and> is_finite vy \<and> is_finite vz
           \<and> val vx = cheb_series_deriv (xs_of cs) (val t) * (86400 / val r)
           \<and> val vy = cheb_series_deriv (ys_of cs) (val t) * (86400 / val r)
           \<and> val vz = cheb_series_deriv (zs_of cs) (val t) * (86400 / val r)"
proof -
  from n obtain m where m: "length cs = Suc m"
    by (cases cs) auto
  from n have ne: "cs \<noteq> []" by auto
  have len: "length coeffs = Suc m"
    using map_eq_imp_length_eq [OF wf] m by simp
  have lens: "length (xs_of cs) - 1 = m" "length (ys_of cs) - 1 = m" "length (zs_of cs) - 1 = m"
    "xs_of cs \<noteq> []" "ys_of cs \<noteq> []" "zs_of cs \<noteq> []"
    using m ne by (simp_all add: xs_of_def ys_of_def zs_of_def)
  have k: "RARRAY_LEN coeffs - 1 = int m"
    using len by (simp add: RARRAY_LEN_def)
  have big: "\<not> RARRAY_LEN coeffs < 2"
    using n map_eq_imp_length_eq [OF wf] by (simp add: RARRAY_LEN_def)
  define Dx where "Dx = fst (clenshaw (\<lambda>j. 2 * real j * xs_of cs ! j) (2 * val t) m (0, 0))"
  define Dy where "Dy = fst (clenshaw (\<lambda>j. 2 * real j * ys_of cs ! j) (2 * val t) m (0, 0))"
  define Dz where "Dz = fst (clenshaw (\<lambda>j. 2 * real j * zs_of cs ! j) (2 * val t) m (0, 0))"
  have ex': "is_binary64 (2 * val t)" "k2_exact (\<lambda>j. xs_of cs ! j) m"
    "clenshaw_exact (\<lambda>j. 2 * real j * xs_of cs ! j) (2 * val t) m (0, 0)"
    "is_binary64 (2 * val r)" "is_binary64 (86400 / (2 * val r))"
    "is_binary64 (Dx * (86400 / (2 * val r)))"
    using ex unfolding evaluate_derivative_exact_def lens Dx_def by simp_all
  have ey': "k2_exact (\<lambda>j. ys_of cs ! j) m"
    "clenshaw_exact (\<lambda>j. 2 * real j * ys_of cs ! j) (2 * val t) m (0, 0)"
    "is_binary64 (Dy * (86400 / (2 * val r)))"
    using ey unfolding evaluate_derivative_exact_def lens Dy_def by simp_all
  have ez': "k2_exact (\<lambda>j. zs_of cs ! j) m"
    "clenshaw_exact (\<lambda>j. 2 * real j * zs_of cs ! j) (2 * val t) m (0, 0)"
    "is_binary64 (Dz * (86400 / (2 * val r)))"
    using ez unfolding evaluate_derivative_exact_def lens Dz_def by simp_all
  have D: "Dx = 2 * cheb_series_deriv (xs_of cs) (val t)"
    "Dy = 2 * cheb_series_deriv (ys_of cs) (val t)"
    "Dz = 2 * cheb_series_deriv (zs_of cs) (val t)"
    using clenshaw_deriv_series [OF lens(4), of "val t"]
      clenshaw_deriv_series [OF lens(5), of "val t"]
      clenshaw_deriv_series [OF lens(6), of "val t"]
    unfolding lens Dx_def Dy_def Dz_def by simp_all
  define t2 where "t2 = Finite 2 * t"
  have t2: "is_finite t2 \<and> val t2 = 2 * val t"
    using times_exact [of "Finite 2" t] ft ex'(1) by (simp add: t2_def)
  have rd: "\<forall>j. 0 < j \<and> j \<le> m \<longrightarrow>
      (\<exists>c0 c1 c2. read_c_ary (rb_ary_entry coeffs (int j)) = Inr (c0, c1, c2)
         \<and> is_finite c0 \<and> is_finite c1 \<and> is_finite c2
         \<and> val c0 = xs_of cs ! j \<and> val c1 = ys_of cs ! j \<and> val c2 = zs_of cs ! j)"
  proof (intro allI impI)
    fix j assume "0 < j \<and> j \<le> m"
    then have "j < length cs" using m by simp
    from read_c_ary_wf [OF wf this]
    show "\<exists>c0 c1 c2. read_c_ary (rb_ary_entry coeffs (int j)) = Inr (c0, c1, c2)
         \<and> is_finite c0 \<and> is_finite c1 \<and> is_finite c2
         \<and> val c0 = xs_of cs ! j \<and> val c1 = ys_of cs ! j \<and> val c2 = zs_of cs ! j"
      by blast
  qed
  define s0 where "s0 = \<lparr>d1x = Finite 0, d1y = Finite 0, d1z = Finite 0,
                 d2x = Finite 0, d2y = Finite 0, d2z = Finite 0\<rparr>"
  have fin0: "d_finite s0" by (simp add: s0_def d_finite_def)
  have e0:
    "clenshaw_exact (\<lambda>j. 2 * real j * xs_of cs ! j) (val t2) m (val (d1x s0), val (d2x s0))"
    "clenshaw_exact (\<lambda>j. 2 * real j * ys_of cs ! j) (val t2) m (val (d1y s0), val (d2y s0))"
    "clenshaw_exact (\<lambda>j. 2 * real j * zs_of cs ! j) (val t2) m (val (d1z s0), val (d2z s0))"
    using ex'(3) ey'(2) ez'(2) t2 by (simp_all add: s0_def)
  from evaluate_derivative_loop_exact
         [OF rd conjunct1 [OF t2] fin0 ex'(2) ey'(1) ez'(1) e0]
  obtain s where
    loop: "chebyshev_evaluate_derivative_loop coeffs t2 (int m) s0 = Inr s"
    and fs: "d_finite s"
    and vx: "val (d1x s) = Dx" and vy: "val (d1y s) = Dy" and vz: "val (d1z s) = Dz"
    using t2 unfolding Dx_def Dy_def Dz_def
    by (auto simp: s0_def) (metis fst_conv)
  have f: "is_finite (d1x s)" "is_finite (d1y s)" "is_finite (d1z s)"
    using fs by (simp_all add: d_finite_def)
  define scale where "scale = SECONDS_PER_DAY / (Finite 2 * r)"
  have r2: "is_finite (Finite 2 * r) \<and> val (Finite 2 * r) = 2 * val r"
    using times_exact [of "Finite 2" r] fr ex'(4) by simp
  have sc: "is_finite scale \<and> val scale = 86400 / (2 * val r)"
    using divide_exact [of "Finite 86400" "Finite 2 * r"] r2 r0 ex'(5)
    by (simp add: scale_def SECONDS_PER_DAY_def)
  have rx: "is_finite (d1x s * scale)
      \<and> val (d1x s * scale) = cheb_series_deriv (xs_of cs) (val t) * (86400 / val r)"
    using times_exact [of "d1x s" scale] f(1) sc ex'(6) vx D(1) r0 by simp
  have ry: "is_finite (d1y s * scale)
      \<and> val (d1y s * scale) = cheb_series_deriv (ys_of cs) (val t) * (86400 / val r)"
    using times_exact [of "d1y s" scale] f(2) sc ey'(3) vy D(2) r0 by simp
  have rz: "is_finite (d1z s * scale)
      \<and> val (d1z s * scale) = cheb_series_deriv (zs_of cs) (val t) * (86400 / val r)"
    using times_exact [of "d1z s" scale] f(3) sc ez'(3) vz D(3) r0 by simp
  have res: "chebyshev_evaluate_derivative (T_ARRAY coeffs) rb_t rb_radius
      = Inr (T_ARRAY [T_FLOAT (d1x s * scale), T_FLOAT (d1y s * scale),
                      T_FLOAT (d1z s * scale)])"
    unfolding chebyshev_evaluate_derivative_def
    by (simp only: Check_Type_T_ARRAY.simps sum.case t r k Let_def big if_False
          loop [unfolded s0_def t2_def] scale_def rb_ary_new_from_args_def DBL2NUM_def)
  have lp: "chebyshev_evaluate_derivative_loop coeffs (Finite 2 * t) (RARRAY_LEN coeffs - 1)
             \<lparr>d1x = Finite 0, d1y = Finite 0, d1z = Finite 0,
              d2x = Finite 0, d2y = Finite 0, d2z = Finite 0\<rparr> = Inr s"
    using loop by (simp add: k s0_def t2_def)
  from lp f vx vy vz D res rx ry rz show ?thesis by blast
qed

section \<open>Position: \<^verbatim>\<open>evaluate\<close>\<close>

lemma vec3_of_vec:
  "is_binary64 x \<Longrightarrow> is_binary64 y \<Longrightarrow> is_binary64 z \<Longrightarrow> vec3_of (vec x y z) = Some (x, y, z)"
  by (simp add: vec_def)

lemma lessThan_3: "{..<3::nat} = {0, 1, 2}"
  by auto

lemma lessThan_2: "{..<2::nat} = {0, 1}"
  by auto

text \<open>Rewrite rules that run a call on a concrete record.\<close>

lemmas run_eval =
  chebyshev_evaluate_def chebyshev_evaluate_loop.simps
  chebyshev_evaluate_derivative_def chebyshev_evaluate_derivative_loop.simps
  RARRAY_LEN_def rb_ary_entry_def read_c_ary_def vec_def SECONDS_PER_DAY_def
  rb_ary_new_from_args_def DBL2NUM_def Let_def

subsection \<open>Roundings at the double nearest 0.1\<close>

lemma tenth_binary64: "is_binary64 (3602879701896397 / 36028797018963968)"
  using is_binary64_dyadic [of 3602879701896397 55] by simp

lemma fifth_binary64: "is_binary64 (3602879701896397 / 18014398509481984)"
  using is_binary64_dyadic [of 3602879701896397 54] by simp

lemma round64_one_plus_tenth:
  "round64 (39631676720860365 / 36028797018963968)
     = Finite (2476979795053773 / 2251799813685248)"
proof -
  have "round64 (39631676720860365 / 36028797018963968)
      = round_at 0 (39631676720860365 / 36028797018963968)"
    by (rule round64_binade) simp_all
  also have "\<dots> = Finite (2476979795053773 / 2251799813685248)"
    by (simp add: round_at_def round_half_even_def Let_def powr_neg_numeral)
  finally show ?thesis .
qed

lemma round64_three_tenths:
  "round64 (10808639105689191 / 36028797018963968)
     = Finite (1351079888211149 / 4503599627370496)"
proof -
  have "round64 (10808639105689191 / 36028797018963968)
      = round_at (- 2) (10808639105689191 / 36028797018963968)"
    by (rule round64_binade) (simp_all add: powr_neg_numeral)
  also have "\<dots> = Finite (1351079888211149 / 4503599627370496)"
    by (simp add: round_at_def round_half_even_def Let_def powr_neg_numeral)
  finally show ?thesis .
qed

lemma three_tenths_binary64: "is_binary64 (1351079888211149 / 4503599627370496)"
  using is_binary64_dyadic [of 1351079888211149 52] by simp

lemma round64_three_plus_three_tenths:
  "round64 (14861878770322637 / 4503599627370496)
     = Finite (3715469692580659 / 1125899906842624)"
proof -
  have "round64 (14861878770322637 / 4503599627370496)
      = round_at 1 (14861878770322637 / 4503599627370496)"
    by (rule round64_binade) simp_all
  also have "\<dots> = Finite (3715469692580659 / 1125899906842624)"
    by (simp add: round_at_def round_half_even_def Let_def powr_neg_numeral)
  finally show ?thesis .
qed

lemma round64_scale_fifth:
  "round64 (1556444031219243417600 / 3602879701896397) = Finite 432000"
proof -
  have "round64 (1556444031219243417600 / 3602879701896397)
      = round_at 18 (1556444031219243417600 / 3602879701896397)"
    by (rule round64_binade) simp_all
  also have "\<dots> = Finite 432000"
    by (simp add: round_at_def round_half_even_def Let_def powr_neg_numeral)
  finally show ?thesis .
qed

text \<open>
  Claim C2, as amended. For a record of \<open>n \<ge> 1\<close> well-formed 3-vectors and a finite \<open>t\<close>,
  each component of \<^verbatim>\<open>evaluate(coefficients, t)\<close> is the Chebyshev sum \<open>\<Sum>k<n. c\<^sub>k T\<^sub>k(t)\<close> of that
  axis whenever no operation of the call rounds (\<open>evaluate_exact3\<close>): the loop runs from
  \<open>n - 1\<close> down to 1 with \<open>t2 = 2 t\<close>, and the last step uses \<open>t\<close> itself. When an operation
  rounds, the result is that of the same recurrence with every operation rounded to
  binary64.
\<close>

theorem evaluate_chebyshev_sum_unrounded:
  assumes "map vec3_of coeffs = map Some cs"
    and "1 \<le> length cs"
    and "NUM2DBL rb_t = Inr t" and "is_finite t"
    and "evaluate_exact3 cs (val t)"
  shows "\<exists>rx ry rz. chebyshev_evaluate (T_ARRAY coeffs) rb_t
             = Inr (T_ARRAY [T_FLOAT rx, T_FLOAT ry, T_FLOAT rz])
           \<and> is_finite rx \<and> is_finite ry \<and> is_finite rz
           \<and> val rx = cheb_series (xs_of cs) (val t)
           \<and> val ry = cheb_series (ys_of cs) (val t)
           \<and> val rz = cheb_series (zs_of cs) (val t)"
proof -
  from assms(2) have "cs \<noteq> []" by auto
  with assms(1) show ?thesis
    using assms(3,4) assms(5) [unfolded evaluate_exact3_def]
    by (intro evaluate_exact_result) simp_all
qed

theorem evaluate_chebyshev_sum_unrounded_witness:
  "map vec3_of [vec 1 0 0, vec 0 1 0, vec 0 0 1] = map Some [(1, 0, 0), (0, 1, 0), (0, 0, 1)]
   \<and> 1 \<le> length ([(1, 0, 0), (0, 1, 0), (0, 0, 1)] :: (real \<times> real \<times> real) list)
   \<and> NUM2DBL (T_FLOAT (Finite 0)) = Inr (Finite 0)
   \<and> is_finite (Finite 0)
   \<and> evaluate_exact3 [(1, 0, 0), (0, 1, 0), (0, 0, 1)] (val (Finite 0))
   \<and> chebyshev_evaluate (T_ARRAY [vec 1 0 0, vec 0 1 0, vec 0 0 1]) (T_FLOAT (Finite 0))
       = Inr (T_ARRAY [T_FLOAT (Finite 1), T_FLOAT (Finite 0), T_FLOAT (Finite (- 1))])
   \<and> cheb_series (xs_of [(1, 0, 0), (0, 1, 0), (0, 0, 1)]) (val (Finite 0)) = 1
   \<and> cheb_series (ys_of [(1, 0, 0), (0, 1, 0), (0, 0, 1)]) (val (Finite 0)) = 0
   \<and> cheb_series (zs_of [(1, 0, 0), (0, 1, 0), (0, 0, 1)]) (val (Finite 0)) = - 1"
proof -
  have wf: "map vec3_of [vec 1 0 0, vec 0 1 0, vec 0 0 1]
      = map Some [(1, 0, 0), (0, 1, 0), (0, 0, 1)]"
    by (simp add: vec3_of_vec)
  have n: "1 \<le> length ([(1, 0, 0), (0, 1, 0), (0, 0, 1)] :: (real \<times> real \<times> real) list)"
    by simp
  have t: "NUM2DBL (T_FLOAT (Finite 0)) = Inr (Finite 0)" by simp
  have ft: "is_finite (Finite 0)" by simp
  have ex: "evaluate_exact3 [(1, 0, 0), (0, 1, 0), (0, 0, 1)] (val (Finite 0))"
    by (simp add: evaluate_exact3_def evaluate_exact_def xs_of_def ys_of_def zs_of_def)
  have run: "chebyshev_evaluate (T_ARRAY [vec 1 0 0, vec 0 1 0, vec 0 0 1]) (T_FLOAT (Finite 0))
       = Inr (T_ARRAY [T_FLOAT (Finite 1), T_FLOAT (Finite 0), T_FLOAT (Finite (- 1))])"
    by (simp add: run_eval fp_eval)
  have ser: "cheb_series (xs_of [(1, 0, 0), (0, 1, 0), (0, 0, 1)]) (val (Finite 0)) = 1"
    "cheb_series (ys_of [(1, 0, 0), (0, 1, 0), (0, 0, 1)]) (val (Finite 0)) = 0"
    "cheb_series (zs_of [(1, 0, 0), (0, 1, 0), (0, 0, 1)]) (val (Finite 0)) = - 1"
    by (simp_all add: cheb_series_def xs_of_def ys_of_def zs_of_def lessThan_3 numeral_2_eq_2)
  show ?thesis
    using evaluate_chebyshev_sum_unrounded [OF wf n t ft ex] wf n ex run ser
    by simp
qed

text \<open>
  The claim as written (the result equals the sum) fails on \<open>[[1,0,0],[1,0,0]]\<close> at the
  double nearest 0.1: the last addition rounds, and the first component is the double 1.1
  while the sum \<open>1 + t\<close> is not a binary64 number.
\<close>

theorem evaluate_rounding_counterexample:
  "is_binary64 (3602879701896397 / 36028797018963968)
   \<and> chebyshev_evaluate (T_ARRAY [vec 1 0 0, vec 1 0 0])
        (T_FLOAT (Finite (3602879701896397 / 36028797018963968)))
       = Inr (T_ARRAY [T_FLOAT (Finite (2476979795053773 / 2251799813685248)),
                       T_FLOAT (Finite 0), T_FLOAT (Finite 0)])
   \<and> cheb_series [1, 1] (3602879701896397 / 36028797018963968)
       = 39631676720860365 / 36028797018963968
   \<and> (2476979795053773 / 2251799813685248 :: real)
       \<noteq> 39631676720860365 / 36028797018963968"
proof -
  have "chebyshev_evaluate (T_ARRAY [vec 1 0 0, vec 1 0 0])
        (T_FLOAT (Finite (3602879701896397 / 36028797018963968)))
       = Inr (T_ARRAY [T_FLOAT (Finite (2476979795053773 / 2251799813685248)),
                       T_FLOAT (Finite 0), T_FLOAT (Finite 0)])"
    by (simp add: run_eval fp_eval tenth_binary64 fifth_binary64 round64_one_plus_tenth)
  moreover have "cheb_series [1, 1] (3602879701896397 / 36028797018963968)
       = 39631676720860365 / 36028797018963968"
    by (simp add: cheb_series_def lessThan_2)
  ultimately show ?thesis
    using tenth_binary64 by simp
qed

text \<open>
  Claim C7. For a record of exactly one well-formed 3-vector and every finite \<open>t\<close>,
  \<^verbatim>\<open>evaluate\<close> returns three Floats equal to the numbers of that vector, whatever \<open>t\<close> is
  (\<open>t 0.0 - 0.0 + c\<close> does not round); the loop, entered with \<open>k = n - 1 = 0\<close>, makes no
  iteration and leaves the accumulators as they are.
\<close>

theorem evaluate_single_coefficient:
  assumes "vec3_of v = Some (x, y, z)"
    and "NUM2DBL rb_t = Inr t" and "is_finite t"
  shows "(\<exists>rx ry rz. chebyshev_evaluate (T_ARRAY [v]) rb_t
              = Inr (T_ARRAY [T_FLOAT rx, T_FLOAT ry, T_FLOAT rz])
            \<and> is_finite rx \<and> is_finite ry \<and> is_finite rz
            \<and> val rx = x \<and> val ry = y \<and> val rz = z)
         \<and> chebyshev_evaluate_loop [v] (Finite 2 * t) (RARRAY_LEN [v] - 1) s = Inr s"
proof -
  from read_c_ary_vec3 [OF assms(1)] obtain c0 c1 c2 where
    rd: "read_c_ary v = Inr (c0, c1, c2)"
    and c: "is_finite c0" "is_finite c1" "is_finite c2"
    and cv: "val c0 = x" "val c1 = y" "val c2 = z"
    and b: "is_binary64 x" "is_binary64 y" "is_binary64 z"
    by blast
  have rd0: "read_c_ary (rb_ary_entry [v] 0) = Inr (c0, c1, c2)"
    using rd by (simp add: rb_ary_entry_def RARRAY_LEN_def)
  have loop: "chebyshev_evaluate_loop [v] t2 0 s' = Inr s'" for t2 s'
    by (subst chebyshev_evaluate_loop.simps) simp
  have z: "is_finite (Finite 0)" by simp
  have rx: "is_finite (t * Finite 0 - Finite 0 + c0) \<and> val (t * Finite 0 - Finite 0 + c0) = x"
    using step_exact [OF assms(3) z z c(1)] b(1) by (simp add: cv)
  have ry: "is_finite (t * Finite 0 - Finite 0 + c1) \<and> val (t * Finite 0 - Finite 0 + c1) = y"
    using step_exact [OF assms(3) z z c(2)] b(2) by (simp add: cv)
  have rz: "is_finite (t * Finite 0 - Finite 0 + c2) \<and> val (t * Finite 0 - Finite 0 + c2) = z"
    using step_exact [OF assms(3) z z c(3)] b(3) by (simp add: cv)
  have "chebyshev_evaluate (T_ARRAY [v]) rb_t
      = Inr (T_ARRAY [T_FLOAT (t * Finite 0 - Finite 0 + c0),
                      T_FLOAT (t * Finite 0 - Finite 0 + c1),
                      T_FLOAT (t * Finite 0 - Finite 0 + c2)])"
    by (simp add: chebyshev_evaluate_def assms(2) RARRAY_LEN_def loop rd0
          rb_ary_new_from_args_def DBL2NUM_def)
  with rx ry rz show ?thesis
    by (simp add: RARRAY_LEN_def loop)
qed

theorem evaluate_single_coefficient_witness:
  "vec3_of (T_ARRAY [T_FIXNUM 4, T_FLOAT (Finite 5), T_FLOAT NegZero]) = Some (4, 5, 0)
   \<and> NUM2DBL (T_FLOAT (Finite (- 3))) = Inr (Finite (- 3))
   \<and> is_finite (Finite (- 3))
   \<and> chebyshev_evaluate (T_ARRAY [T_ARRAY [T_FIXNUM 4, T_FLOAT (Finite 5), T_FLOAT NegZero]])
        (T_FLOAT (Finite (- 3)))
       = Inr (T_ARRAY [T_FLOAT (Finite 4), T_FLOAT (Finite 5), T_FLOAT NegZero])"
proof -
  have v: "vec3_of (T_ARRAY [T_FIXNUM 4, T_FLOAT (Finite 5), T_FLOAT NegZero]) = Some (4, 5, 0)"
    by simp
  have t: "NUM2DBL (T_FLOAT (Finite (- 3))) = Inr (Finite (- 3))" by simp
  have ft: "is_finite (Finite (- 3))" by simp
  have run: "chebyshev_evaluate
        (T_ARRAY [T_ARRAY [T_FIXNUM 4, T_FLOAT (Finite 5), T_FLOAT NegZero]])
        (T_FLOAT (Finite (- 3)))
       = Inr (T_ARRAY [T_FLOAT (Finite 4), T_FLOAT (Finite 5), T_FLOAT NegZero])"
    by (simp add: run_eval fp_eval times_double_def minus_double_def plus_double_def)
  show ?thesis
    using evaluate_single_coefficient [OF v t ft] v run by simp
qed

text \<open>
  Claim C8, as amended. \<^verbatim>\<open>evaluate\<close> is linear in the record up to rounding: for a
  well-formed record of \<open>n \<ge> 1\<close> vectors, a finite \<open>t\<close> and a real \<open>c\<close>, when no operation
  rounds in either call, the record with every component multiplied by \<open>c\<close> evaluates to \<open>c\<close>
  times each component of the original result.
\<close>

theorem evaluate_linear_unrounded:
  assumes "map vec3_of coeffs = map Some cs"
    and "map vec3_of scaled = map Some (map (scale3 c) cs)"
    and "1 \<le> length cs"
    and "NUM2DBL rb_t = Inr t" and "is_finite t"
    and "evaluate_exact3 cs (val t)"
    and "evaluate_exact3 (map (scale3 c) cs) (val t)"
  shows "\<exists>x y z sx sy sz.
           chebyshev_evaluate (T_ARRAY coeffs) rb_t
             = Inr (T_ARRAY [T_FLOAT x, T_FLOAT y, T_FLOAT z])
         \<and> chebyshev_evaluate (T_ARRAY scaled) rb_t
             = Inr (T_ARRAY [T_FLOAT sx, T_FLOAT sy, T_FLOAT sz])
         \<and> is_finite x \<and> is_finite y \<and> is_finite z
         \<and> is_finite sx \<and> is_finite sy \<and> is_finite sz
         \<and> val sx = c * val x \<and> val sy = c * val y \<and> val sz = c * val z"
proof -
  from assms(3) have ne: "cs \<noteq> []" by auto
  then have ne': "map (scale3 c) cs \<noteq> []" by simp
  have sx: "xs_of (map (scale3 c) cs) = map (\<lambda>v. c * fst v) cs"
    and sy: "ys_of (map (scale3 c) cs) = map (\<lambda>v. c * fst (snd v)) cs"
    and sz: "zs_of (map (scale3 c) cs) = map (\<lambda>v. c * snd (snd v)) cs"
    by (simp_all add: xs_of_def ys_of_def zs_of_def scale3_def)
  have lin: "cheb_series (xs_of (map (scale3 c) cs)) (val t) = c * cheb_series (xs_of cs) (val t)"
    "cheb_series (ys_of (map (scale3 c) cs)) (val t) = c * cheb_series (ys_of cs) (val t)"
    "cheb_series (zs_of (map (scale3 c) cs)) (val t) = c * cheb_series (zs_of cs) (val t)"
    unfolding sx sy sz cheb_series_scale by (simp_all add: xs_of_def ys_of_def zs_of_def)
  from evaluate_exact_result [OF assms(1) ne assms(4,5)] assms(6)
  obtain x y z where
    o: "chebyshev_evaluate (T_ARRAY coeffs) rb_t = Inr (T_ARRAY [T_FLOAT x, T_FLOAT y, T_FLOAT z])"
    "is_finite x" "is_finite y" "is_finite z"
    "val x = cheb_series (xs_of cs) (val t)"
    "val y = cheb_series (ys_of cs) (val t)"
    "val z = cheb_series (zs_of cs) (val t)"
    unfolding evaluate_exact3_def by blast
  from evaluate_exact_result [OF assms(2) ne' assms(4,5)] assms(7)
  obtain sx sy sz where
    s: "chebyshev_evaluate (T_ARRAY scaled) rb_t
          = Inr (T_ARRAY [T_FLOAT sx, T_FLOAT sy, T_FLOAT sz])"
    "is_finite sx" "is_finite sy" "is_finite sz"
    "val sx = cheb_series (xs_of (map (scale3 c) cs)) (val t)"
    "val sy = cheb_series (ys_of (map (scale3 c) cs)) (val t)"
    "val sz = cheb_series (zs_of (map (scale3 c) cs)) (val t)"
    unfolding evaluate_exact3_def by blast
  from o s lin show ?thesis
    by (intro exI [of _ x] exI [of _ y] exI [of _ z] exI [of _ sx] exI [of _ sy] exI [of _ sz])
       simp
qed

theorem evaluate_linear_unrounded_witness:
  "map vec3_of [vec 1 0 0, vec 0 1 0, vec 0 0 1] = map Some [(1, 0, 0), (0, 1, 0), (0, 0, 1)]
   \<and> map vec3_of [vec 5 0 0, vec 0 5 0, vec 0 0 5]
       = map Some (map (scale3 5) [(1, 0, 0), (0, 1, 0), (0, 0, 1)])
   \<and> 1 \<le> length ([(1, 0, 0), (0, 1, 0), (0, 0, 1)] :: (real \<times> real \<times> real) list)
   \<and> NUM2DBL (T_FLOAT (Finite 1)) = Inr (Finite 1)
   \<and> is_finite (Finite 1)
   \<and> evaluate_exact3 [(1, 0, 0), (0, 1, 0), (0, 0, 1)] (val (Finite 1))
   \<and> evaluate_exact3 (map (scale3 5) [(1, 0, 0), (0, 1, 0), (0, 0, 1)]) (val (Finite 1))
   \<and> chebyshev_evaluate (T_ARRAY [vec 1 0 0, vec 0 1 0, vec 0 0 1]) (T_FLOAT (Finite 1))
       = Inr (T_ARRAY [T_FLOAT (Finite 1), T_FLOAT (Finite 1), T_FLOAT (Finite 1)])
   \<and> chebyshev_evaluate (T_ARRAY [vec 5 0 0, vec 0 5 0, vec 0 0 5]) (T_FLOAT (Finite 1))
       = Inr (T_ARRAY [T_FLOAT (Finite 5), T_FLOAT (Finite 5), T_FLOAT (Finite 5)])"
proof -
  have wf: "map vec3_of [vec 1 0 0, vec 0 1 0, vec 0 0 1]
      = map Some [(1, 0, 0), (0, 1, 0), (0, 0, 1)]"
    by (simp add: vec3_of_vec)
  have wf': "map vec3_of [vec 5 0 0, vec 0 5 0, vec 0 0 5]
       = map Some (map (scale3 5) [(1, 0, 0), (0, 1, 0), (0, 0, 1)])"
    by (simp add: vec3_of_vec scale3_def)
  have n: "1 \<le> length ([(1, 0, 0), (0, 1, 0), (0, 0, 1)] :: (real \<times> real \<times> real) list)"
    by simp
  have t: "NUM2DBL (T_FLOAT (Finite 1)) = Inr (Finite 1)" by simp
  have ft: "is_finite (Finite 1)" by simp
  have ex: "evaluate_exact3 [(1, 0, 0), (0, 1, 0), (0, 0, 1)] (val (Finite 1))"
    by (simp add: evaluate_exact3_def evaluate_exact_def xs_of_def ys_of_def zs_of_def)
  have ex': "evaluate_exact3 (map (scale3 5) [(1, 0, 0), (0, 1, 0), (0, 0, 1)]) (val (Finite 1))"
    by (simp add: evaluate_exact3_def evaluate_exact_def xs_of_def ys_of_def zs_of_def
          scale3_def)
  have run: "chebyshev_evaluate (T_ARRAY [vec 1 0 0, vec 0 1 0, vec 0 0 1]) (T_FLOAT (Finite 1))
       = Inr (T_ARRAY [T_FLOAT (Finite 1), T_FLOAT (Finite 1), T_FLOAT (Finite 1)])"
    "chebyshev_evaluate (T_ARRAY [vec 5 0 0, vec 0 5 0, vec 0 0 5]) (T_FLOAT (Finite 1))
       = Inr (T_ARRAY [T_FLOAT (Finite 5), T_FLOAT (Finite 5), T_FLOAT (Finite 5)])"
    by (simp_all add: run_eval fp_eval)
  show ?thesis
    using evaluate_linear_unrounded [OF wf wf' n t ft ex ex'] wf wf' ex ex' run
    by simp
qed

text \<open>
  The claim as written (the scaled record gives \<open>c\<close> times the result) fails on
  \<open>[[1,0,0],[1,0,0]]\<close> scaled by 3 at the double nearest 0.1: the results are the doubles
  1.1 and 3.3, and 3.3 is not three times 1.1.
\<close>

theorem evaluate_linear_rounding_counterexample:
  "map vec3_of [vec 1 0 0, vec 1 0 0] = map Some [(1, 0, 0), (1, 0, 0)]
   \<and> map vec3_of [vec 3 0 0, vec 3 0 0] = map Some (map (scale3 3) [(1, 0, 0), (1, 0, 0)])
   \<and> is_binary64 (3602879701896397 / 36028797018963968)
   \<and> chebyshev_evaluate (T_ARRAY [vec 1 0 0, vec 1 0 0])
        (T_FLOAT (Finite (3602879701896397 / 36028797018963968)))
       = Inr (T_ARRAY [T_FLOAT (Finite (2476979795053773 / 2251799813685248)),
                       T_FLOAT (Finite 0), T_FLOAT (Finite 0)])
   \<and> chebyshev_evaluate (T_ARRAY [vec 3 0 0, vec 3 0 0])
        (T_FLOAT (Finite (3602879701896397 / 36028797018963968)))
       = Inr (T_ARRAY [T_FLOAT (Finite (3715469692580659 / 1125899906842624)),
                       T_FLOAT (Finite 0), T_FLOAT (Finite 0)])
   \<and> (3715469692580659 / 1125899906842624 :: real)
       \<noteq> 3 * (2476979795053773 / 2251799813685248)"
proof -
  have "map vec3_of [vec 1 0 0, vec 1 0 0] = map Some [(1, 0, 0), (1, 0, 0)]"
    by (simp add: vec3_of_vec)
  moreover have "map vec3_of [vec 3 0 0, vec 3 0 0]
      = map Some (map (scale3 3) [(1, 0, 0), (1, 0, 0)])"
    by (simp add: vec3_of_vec scale3_def)
  moreover have "chebyshev_evaluate (T_ARRAY [vec 1 0 0, vec 1 0 0])
        (T_FLOAT (Finite (3602879701896397 / 36028797018963968)))
       = Inr (T_ARRAY [T_FLOAT (Finite (2476979795053773 / 2251799813685248)),
                       T_FLOAT (Finite 0), T_FLOAT (Finite 0)])"
    by (simp add: run_eval fp_eval tenth_binary64 fifth_binary64 round64_one_plus_tenth)
  moreover have "chebyshev_evaluate (T_ARRAY [vec 3 0 0, vec 3 0 0])
        (T_FLOAT (Finite (3602879701896397 / 36028797018963968)))
       = Inr (T_ARRAY [T_FLOAT (Finite (3715469692580659 / 1125899906842624)),
                       T_FLOAT (Finite 0), T_FLOAT (Finite 0)])"
    by (simp add: run_eval fp_eval tenth_binary64 fifth_binary64 round64_three_tenths
          three_tenths_binary64 round64_three_plus_three_tenths)
  ultimately show ?thesis
    using tenth_binary64 by simp
qed

section \<open>Velocity: \<^verbatim>\<open>evaluate_derivative\<close>\<close>

text \<open>
  Claim C1, as amended. For a record of \<open>n \<ge> 2\<close> well-formed 3-vectors, a finite \<open>t\<close> and a
  finite nonzero \<open>radius\<close>, when no operation of the call rounds
  (\<open>evaluate_derivative_exact3\<close>), each component of \<^verbatim>\<open>evaluate_derivative\<close> is the derivative
  of the axis' Chebyshev series with respect to normalized time, at \<open>t\<close>, multiplied by
  \<open>SECONDS_PER_DAY / radius\<close>. The loop adds \<open>2 k c\<^sub>k\<close>, so the accumulator \<open>d1\<close> it leaves is
  twice that derivative, and the 2 of \<open>scale = SECONDS_PER_DAY / (2 radius)\<close> cancels it. When
  an operation rounds, the result is that of the same operations rounded to binary64.
\<close>

theorem evaluate_derivative_unrounded:
  assumes "map vec3_of coeffs = map Some cs"
    and "2 \<le> length cs"
    and "NUM2DBL rb_t = Inr t" and "is_finite t"
    and "NUM2DBL rb_radius = Inr r" and "is_finite r" and "val r \<noteq> 0"
    and "evaluate_derivative_exact3 cs (val t) (val r)"
  shows "(\<exists>vx vy vz.
            chebyshev_evaluate_derivative (T_ARRAY coeffs) rb_t rb_radius
              = Inr (T_ARRAY [T_FLOAT vx, T_FLOAT vy, T_FLOAT vz])
          \<and> is_finite vx \<and> is_finite vy \<and> is_finite vz
          \<and> val vx = cheb_series_deriv (xs_of cs) (val t) * (86400 / val r)
          \<and> val vy = cheb_series_deriv (ys_of cs) (val t) * (86400 / val r)
          \<and> val vz = cheb_series_deriv (zs_of cs) (val t) * (86400 / val r))
         \<and> (cheb_series (xs_of cs) has_real_derivative cheb_series_deriv (xs_of cs) (val t))
             (at (val t))
         \<and> (cheb_series (ys_of cs) has_real_derivative cheb_series_deriv (ys_of cs) (val t))
             (at (val t))
         \<and> (cheb_series (zs_of cs) has_real_derivative cheb_series_deriv (zs_of cs) (val t))
             (at (val t))
         \<and> (\<exists>s. chebyshev_evaluate_derivative_loop coeffs (Finite 2 * t)
                    (RARRAY_LEN coeffs - 1)
                    \<lparr>d1x = Finite 0, d1y = Finite 0, d1z = Finite 0,
                     d2x = Finite 0, d2y = Finite 0, d2z = Finite 0\<rparr> = Inr s
                \<and> is_finite (d1x s) \<and> is_finite (d1y s) \<and> is_finite (d1z s)
                \<and> val (d1x s) = 2 * cheb_series_deriv (xs_of cs) (val t)
                \<and> val (d1y s) = 2 * cheb_series_deriv (ys_of cs) (val t)
                \<and> val (d1z s) = 2 * cheb_series_deriv (zs_of cs) (val t))"
proof -
  note ex = assms(8) [unfolded evaluate_derivative_exact3_def]
  from evaluate_derivative_exact_result
         [OF assms(1-7) conjunct1 [OF ex] conjunct1 [OF conjunct2 [OF ex]]
            conjunct2 [OF conjunct2 [OF ex]]]
  obtain s vx vy vz where
    "chebyshev_evaluate_derivative_loop coeffs (Finite 2 * t) (RARRAY_LEN coeffs - 1)
       \<lparr>d1x = Finite 0, d1y = Finite 0, d1z = Finite 0,
        d2x = Finite 0, d2y = Finite 0, d2z = Finite 0\<rparr> = Inr s"
    "is_finite (d1x s)" "is_finite (d1y s)" "is_finite (d1z s)"
    "val (d1x s) = 2 * cheb_series_deriv (xs_of cs) (val t)"
    "val (d1y s) = 2 * cheb_series_deriv (ys_of cs) (val t)"
    "val (d1z s) = 2 * cheb_series_deriv (zs_of cs) (val t)"
    "chebyshev_evaluate_derivative (T_ARRAY coeffs) rb_t rb_radius
       = Inr (T_ARRAY [T_FLOAT vx, T_FLOAT vy, T_FLOAT vz])"
    "is_finite vx" "is_finite vy" "is_finite vz"
    "val vx = cheb_series_deriv (xs_of cs) (val t) * (86400 / val r)"
    "val vy = cheb_series_deriv (ys_of cs) (val t) * (86400 / val r)"
    "val vz = cheb_series_deriv (zs_of cs) (val t) * (86400 / val r)"
    by blast
  with cheb_series_has_deriv show ?thesis by blast
qed

theorem evaluate_derivative_unrounded_witness:
  "map vec3_of [vec 1 2 3, vec 4 5 6, vec 7 8 9] = map Some [(1, 2, 3), (4, 5, 6), (7, 8, 9)]
   \<and> 2 \<le> length ([(1, 2, 3), (4, 5, 6), (7, 8, 9)] :: (real \<times> real \<times> real) list)
   \<and> NUM2DBL (T_FLOAT (Finite (1 / 2))) = Inr (Finite (1 / 2))
   \<and> is_finite (Finite (1 / 2))
   \<and> NUM2DBL (T_FIXNUM 2) = Inr (Finite 2)
   \<and> is_finite (Finite 2)
   \<and> val (Finite 2) \<noteq> 0
   \<and> evaluate_derivative_exact3 [(1, 2, 3), (4, 5, 6), (7, 8, 9)] (val (Finite (1 / 2)))
        (val (Finite 2))
   \<and> chebyshev_evaluate_derivative (T_ARRAY [vec 1 2 3, vec 4 5 6, vec 7 8 9])
        (T_FLOAT (Finite (1 / 2))) (T_FIXNUM 2)
       = Inr (T_ARRAY [T_FLOAT (Finite 777600), T_FLOAT (Finite 907200),
                       T_FLOAT (Finite 1036800)])
   \<and> cheb_series_deriv (xs_of [(1, 2, 3), (4, 5, 6), (7, 8, 9)]) (1 / 2) * (86400 / 2) = 777600
   \<and> cheb_series_deriv (ys_of [(1, 2, 3), (4, 5, 6), (7, 8, 9)]) (1 / 2) * (86400 / 2) = 907200
   \<and> cheb_series_deriv (zs_of [(1, 2, 3), (4, 5, 6), (7, 8, 9)]) (1 / 2) * (86400 / 2)
       = 1036800"
proof -
  have wf: "map vec3_of [vec 1 2 3, vec 4 5 6, vec 7 8 9]
      = map Some [(1, 2, 3), (4, 5, 6), (7, 8, 9)]"
    by (simp add: vec3_of_vec)
  have n: "2 \<le> length ([(1, 2, 3), (4, 5, 6), (7, 8, 9)] :: (real \<times> real \<times> real) list)"
    by simp
  have t: "NUM2DBL (T_FLOAT (Finite (1 / 2))) = Inr (Finite (1 / 2))" by simp
  have ft: "is_finite (Finite (1 / 2))" by simp
  have r: "NUM2DBL (T_FIXNUM 2) = Inr (Finite 2)" by (simp add: fp_eval)
  have fr: "is_finite (Finite 2)" by simp
  have r0: "val (Finite 2) \<noteq> 0" by simp
  have ex: "evaluate_derivative_exact3 [(1, 2, 3), (4, 5, 6), (7, 8, 9)]
      (val (Finite (1 / 2))) (val (Finite 2))"
    by (simp add: evaluate_derivative_exact3_def evaluate_derivative_exact_def
          xs_of_def ys_of_def zs_of_def)
  have run: "chebyshev_evaluate_derivative (T_ARRAY [vec 1 2 3, vec 4 5 6, vec 7 8 9])
        (T_FLOAT (Finite (1 / 2))) (T_FIXNUM 2)
       = Inr (T_ARRAY [T_FLOAT (Finite 777600), T_FLOAT (Finite 907200),
                       T_FLOAT (Finite 1036800)])"
    by (simp add: run_eval fp_eval)
  have ser:
    "cheb_series_deriv (xs_of [(1, 2, 3), (4, 5, 6), (7, 8, 9)]) (1 / 2) * (86400 / 2) = 777600"
    "cheb_series_deriv (ys_of [(1, 2, 3), (4, 5, 6), (7, 8, 9)]) (1 / 2) * (86400 / 2) = 907200"
    "cheb_series_deriv (zs_of [(1, 2, 3), (4, 5, 6), (7, 8, 9)]) (1 / 2) * (86400 / 2)
       = 1036800"
    by (simp_all add: cheb_series_deriv_def xs_of_def ys_of_def zs_of_def lessThan_3
          numeral_2_eq_2)
  show ?thesis
    using evaluate_derivative_unrounded [OF wf n t ft r fr r0 ex] wf ex r run ser
    by simp
qed

text \<open>
  The claim as written (\<open>d1\<close> is the derivative, the result is the derivative times
  \<open>SECONDS_PER_DAY / (2 radius)\<close>) fails on the series \<open>0 + 1 T\<^sub>1\<close> at \<open>t = 0\<close> with
  \<open>radius = 1\<close>: the derivative is 1 and \<open>d1\<close> is 2; the claimed component is 43200, the
  computed one 86400. With the double nearest 0.1 as radius the division rounds: the
  component is 864000, which is not \<open>86400 / radius\<close> either.
\<close>

theorem evaluate_derivative_factor_counterexample:
  "chebyshev_evaluate_derivative (T_ARRAY [vec 0 0 0, vec 1 0 0])
      (T_FLOAT (Finite 0)) (T_FLOAT (Finite 1))
     = Inr (T_ARRAY [T_FLOAT (Finite 86400), T_FLOAT (Finite 0), T_FLOAT (Finite 0)])
   \<and> chebyshev_evaluate_derivative_loop [vec 0 0 0, vec 1 0 0] (Finite 2 * Finite 0)
        (RARRAY_LEN [vec 0 0 0, vec 1 0 0] - 1)
        \<lparr>d1x = Finite 0, d1y = Finite 0, d1z = Finite 0,
         d2x = Finite 0, d2y = Finite 0, d2z = Finite 0\<rparr>
       = Inr \<lparr>d1x = Finite 2, d1y = Finite 0, d1z = Finite 0,
              d2x = Finite 0, d2y = Finite 0, d2z = Finite 0\<rparr>
   \<and> (cheb_series [0, 1] has_real_derivative 1) (at 0)
   \<and> (86400 :: real) \<noteq> 1 * (86400 / (2 * 1))
   \<and> (2 :: real) \<noteq> 1
   \<and> is_binary64 (3602879701896397 / 36028797018963968)
   \<and> chebyshev_evaluate_derivative (T_ARRAY [vec 0 0 0, vec 1 0 0])
        (T_FLOAT (Finite 0)) (T_FLOAT (Finite (3602879701896397 / 36028797018963968)))
       = Inr (T_ARRAY [T_FLOAT (Finite 864000), T_FLOAT (Finite 0), T_FLOAT (Finite 0)])
   \<and> (864000 :: real) \<noteq> 1 * (86400 / (3602879701896397 / 36028797018963968))"
proof -
  have "chebyshev_evaluate_derivative_loop [vec 0 0 0, vec 1 0 0] (Finite 2 * Finite 0)
        (RARRAY_LEN [vec 0 0 0, vec 1 0 0] - 1)
        \<lparr>d1x = Finite 0, d1y = Finite 0, d1z = Finite 0,
         d2x = Finite 0, d2y = Finite 0, d2z = Finite 0\<rparr>
       = Inr \<lparr>d1x = Finite 2, d1y = Finite 0, d1z = Finite 0,
              d2x = Finite 0, d2y = Finite 0, d2z = Finite 0\<rparr>"
    by (simp add: run_eval fp_eval)
  moreover
  have "chebyshev_evaluate_derivative (T_ARRAY [vec 0 0 0, vec 1 0 0])
      (T_FLOAT (Finite 0)) (T_FLOAT (Finite 1))
     = Inr (T_ARRAY [T_FLOAT (Finite 86400), T_FLOAT (Finite 0), T_FLOAT (Finite 0)])"
    by (simp add: run_eval fp_eval)
  moreover have "(cheb_series [0, 1] has_real_derivative 1) (at 0)"
    using cheb_series_has_deriv [of "[0, 1]" 0]
    by (simp add: cheb_series_deriv_def lessThan_2)
  moreover
  have "chebyshev_evaluate_derivative (T_ARRAY [vec 0 0 0, vec 1 0 0])
        (T_FLOAT (Finite 0)) (T_FLOAT (Finite (3602879701896397 / 36028797018963968)))
       = Inr (T_ARRAY [T_FLOAT (Finite 864000), T_FLOAT (Finite 0), T_FLOAT (Finite 0)])"
    by (simp add: run_eval fp_eval tenth_binary64 fifth_binary64 round64_scale_fifth)
  ultimately show ?thesis
    using tenth_binary64 by simp
qed

end
